theory Spec2Isabelle
  imports Complex_Main "HOL-Library.AList"
begin

section \<open>Smart plant monitor: the predictive control core\<close>

text \<open>
  A shallow embedding of the safety manager and control logic of the actuator-control
  service and of the actuator controller and trend predictor of the machine-learning
  module. Python objects are records, their methods take the object and return it
  updated, a \<open>dict\<close> is a map or an association list in insertion order, and an exception
  is the \<open>Inl\<close> of a sum. Python floats are modelled by the reals: NaN, infinities and
  rounding are outside the model. The wall clock is an argument of every method that
  reads it.
\<close>

subsection \<open>services/actuator-control/safety.py\<close>

text \<open>
  \<open>datetime\<close> values are counted in microseconds, the resolution of Python's
  \<open>datetime\<close>, so \<open>timedelta(minutes=1)\<close> is \<open>60000000\<close>.
\<close>

type_synonym datetime = int

definition timedelta_minutes :: "int \<Rightarrow> int" where
  "timedelta_minutes n = n * 60000000"

text \<open>One constructor for each message the safety manager sends to its logger.\<close>

datatype log_record =
    Error_unknown_actuator string
  | Error_invalid_action string
  | Error_negative_duration real
  | Warning_duration_exceeds_max string real
  | Warning_rate_limit_exceeded string

datatype log_level = ERROR | WARNING

fun levelname :: "log_record \<Rightarrow> log_level" where
  "levelname (Error_unknown_actuator _) = ERROR"
| "levelname (Error_invalid_action _) = ERROR"
| "levelname (Error_negative_duration _) = ERROR"
| "levelname (Warning_duration_exceeds_max _ _) = WARNING"
| "levelname (Warning_rate_limit_exceeded _) = WARNING"

definition MAX_DURATIONS :: "(string \<times> real) list" where
  "MAX_DURATIONS = [(''pump'', 1800), (''fan'', 3600), (''grow_light'', 14400)]"

definition MAX_COMMANDS_PER_MINUTE :: nat where
  "MAX_COMMANDS_PER_MINUTE = 10"

text \<open>\<open>dict.get(key, default)\<close> on an association list.\<close>

definition dict_get :: "('k \<times> 'v) list \<Rightarrow> 'k \<Rightarrow> 'v \<Rightarrow> 'v" where
  "dict_get d k dflt = (case map_of d k of None \<Rightarrow> dflt | Some v \<Rightarrow> v)"

text \<open>
  \<open>command_history\<close> is a \<open>defaultdict(list)\<close>: a key that was never written reads as
  the empty list, so it is a total function into lists.
\<close>

record safety_manager =
  command_history :: "string \<Rightarrow> datetime list"

definition safety_manager_init :: safety_manager where
  "safety_manager_init = \<lparr>command_history = (\<lambda>_. [])\<rparr>"

text \<open>
  \<open>_check_rate_limit\<close>: \<open>now\<close> is the value of \<open>datetime.now()\<close> read by the call. The
  result is the returned flag, the updated object and the records logged.
\<close>

definition check_rate_limit ::
  "safety_manager \<Rightarrow> string \<Rightarrow> datetime \<Rightarrow> bool \<times> safety_manager \<times> log_record list" where
  "check_rate_limit s actuator now =
     (let minute_ago = now - timedelta_minutes 1;
          s' = s\<lparr>command_history := (command_history s)
                 (actuator := filter (\<lambda>cmd_time. cmd_time > minute_ago)
                                (command_history s actuator))\<rparr>
      in if length (command_history s' actuator) \<ge> MAX_COMMANDS_PER_MINUTE
         then (False, s', [Warning_rate_limit_exceeded actuator])
         else (True, s', []))"

text \<open>\<open>_record_command\<close>: \<open>now\<close> is its own reading of \<open>datetime.now()\<close>.\<close>

definition record_command :: "safety_manager \<Rightarrow> string \<Rightarrow> datetime \<Rightarrow> safety_manager" where
  "record_command s actuator now =
     s\<lparr>command_history := (command_history s)
         (actuator := command_history s actuator @ [now])\<rparr>"

text \<open>
  \<open>validate_command\<close>: \<open>t_check\<close> is the clock read by \<open>_check_rate_limit\<close> and
  \<open>t_record\<close> the later one read by \<open>_record_command\<close>. The warning about the duration
  reads \<open>MAX_DURATIONS[actuator]\<close>, which exists for every name that passed the first
  check.
\<close>

definition validate_command ::
  "safety_manager \<Rightarrow> string \<Rightarrow> string \<Rightarrow> real \<Rightarrow> datetime \<Rightarrow> datetime
     \<Rightarrow> bool \<times> safety_manager \<times> log_record list" where
  "validate_command s actuator action duration t_check t_record =
     (if actuator \<notin> set [''pump'', ''fan'', ''grow_light'']
      then (False, s, [Error_unknown_actuator actuator])
      else if action \<notin> set [''ON'', ''OFF'']
      then (False, s, [Error_invalid_action action])
      else if duration < 0
      then (False, s, [Error_negative_duration duration])
      else
        let log1 = (if duration > dict_get MAX_DURATIONS actuator 3600
                    then [Warning_duration_exceeds_max actuator
                            (dict_get MAX_DURATIONS actuator 3600)]
                    else [])
        in case check_rate_limit s actuator t_check of
             (False, s', log2) \<Rightarrow>
               (False, s', log1 @ log2 @ [Warning_rate_limit_exceeded actuator])
           | (True, s', log2) \<Rightarrow>
               (True, record_command s' actuator t_record, log1 @ log2))"

text \<open>
  A sequence of calls, as the message loop of the service makes them one at a time.
\<close>

record command =
  cmd_actuator :: string
  cmd_action :: string
  cmd_duration :: real
  cmd_t_check :: datetime
  cmd_t_record :: datetime

definition validate :: "safety_manager \<Rightarrow> command \<Rightarrow> bool \<times> safety_manager \<times> log_record list" where
  "validate s c = validate_command s (cmd_actuator c) (cmd_action c) (cmd_duration c)
                    (cmd_t_check c) (cmd_t_record c)"

fun run_commands :: "safety_manager \<Rightarrow> command list \<Rightarrow> safety_manager" where
  "run_commands s [] = s"
| "run_commands s (c # cs) = run_commands (fst (snd (validate s c))) cs"

text \<open>
  The recording times of the calls of a run that were accepted for one actuator.
\<close>

fun accepted_times :: "safety_manager \<Rightarrow> command list \<Rightarrow> string \<Rightarrow> datetime list" where
  "accepted_times s [] a = []"
| "accepted_times s (c # cs) a =
     (if fst (validate s c) \<and> cmd_actuator c = a then [cmd_t_record c] else [])
       @ accepted_times (fst (snd (validate s c))) cs a"

subsection \<open>services/actuator-control/control_logic.py\<close>

text \<open>
  A timer is the two-entry dictionary the class stores for each actuator; \<open>time.time()\<close>
  is a real number of seconds.
\<close>

record actuator_timer =
  start_time :: "real option"
  duration :: real

record control_logic =
  actuator_timers :: "string \<rightharpoonup> actuator_timer"

definition control_logic_init :: control_logic where
  "control_logic_init = \<lparr>actuator_timers =
     [''pump'' \<mapsto> \<lparr>start_time = None, duration = 0\<rparr>,
      ''fan'' \<mapsto> \<lparr>start_time = None, duration = 0\<rparr>,
      ''grow_light'' \<mapsto> \<lparr>start_time = None, duration = 0\<rparr>]\<rparr>"

definition activate_pump :: "control_logic \<Rightarrow> real \<Rightarrow> real \<Rightarrow> control_logic" where
  "activate_pump c dur now =
     c\<lparr>actuator_timers := (actuator_timers c)
         (''pump'' \<mapsto> \<lparr>start_time = Some now, duration = dur\<rparr>)\<rparr>"

definition deactivate_pump :: "control_logic \<Rightarrow> control_logic" where
  "deactivate_pump c =
     c\<lparr>actuator_timers := (actuator_timers c)
         (''pump'' \<mapsto> \<lparr>start_time = None, duration = 0\<rparr>)\<rparr>"

definition activate_fan :: "control_logic \<Rightarrow> real \<Rightarrow> real \<Rightarrow> control_logic" where
  "activate_fan c dur now =
     c\<lparr>actuator_timers := (actuator_timers c)
         (''fan'' \<mapsto> \<lparr>start_time = Some now, duration = dur\<rparr>)\<rparr>"

definition deactivate_fan :: "control_logic \<Rightarrow> control_logic" where
  "deactivate_fan c =
     c\<lparr>actuator_timers := (actuator_timers c)
         (''fan'' \<mapsto> \<lparr>start_time = None, duration = 0\<rparr>)\<rparr>"

definition activate_light :: "control_logic \<Rightarrow> real \<Rightarrow> real \<Rightarrow> control_logic" where
  "activate_light c dur now =
     c\<lparr>actuator_timers := (actuator_timers c)
         (''grow_light'' \<mapsto> \<lparr>start_time = Some now, duration = dur\<rparr>)\<rparr>"

definition deactivate_light :: "control_logic \<Rightarrow> control_logic" where
  "deactivate_light c =
     c\<lparr>actuator_timers := (actuator_timers c)
         (''grow_light'' \<mapsto> \<lparr>start_time = None, duration = 0\<rparr>)\<rparr>"

text \<open>
  \<open>deactivate_all\<close>: the three calls in the order of the source. Each of them only
  assigns a dictionary entry and logs, so none raises and the \<open>except\<close> branch is dead.
\<close>

definition deactivate_all :: "control_logic \<Rightarrow> control_logic" where
  "deactivate_all c = deactivate_light (deactivate_fan (deactivate_pump c))"

text \<open>
  \<open>get_status\<close>: the test \<open>timer and timer['start_time']\<close> is Python truthiness, false
  for a missing actuator, for \<open>None\<close> and for the number zero.
\<close>

datatype status = Status_OFF | Status_ON real real

definition get_status :: "control_logic \<Rightarrow> string \<Rightarrow> real \<Rightarrow> status" where
  "get_status c actuator now =
     (case actuator_timers c actuator of
        None \<Rightarrow> Status_OFF
      | Some timer \<Rightarrow>
          (case start_time timer of
             None \<Rightarrow> Status_OFF
           | Some st \<Rightarrow>
               if st = 0 then Status_OFF
               else let elapsed = now - st
                    in Status_ON elapsed
                         (if duration timer > 0 then duration timer - elapsed else - 1)))"

subsection \<open>machine-learning/actuator_model.py\<close>

datatype py_error = ValueError string | KeyError string | IndexError

text \<open>
  A \<open>DataFrame\<close> is its columns in order, each a name and the values of its rows.
  \<open>df[name]\<close> raises \<open>KeyError\<close> for a name that is no column.
\<close>

type_synonym dataframe = "(string \<times> real list) list"

definition df_getitem :: "dataframe \<Rightarrow> string \<Rightarrow> py_error + real list" where
  "df_getitem df name = (case map_of df name of None \<Rightarrow> Inl (KeyError name) | Some col \<Rightarrow> Inr col)"

text \<open>\<open>len(df)\<close>, the number of rows: the length of the columns.\<close>

definition df_rows :: "dataframe \<Rightarrow> nat" where
  "df_rows df = (case df of [] \<Rightarrow> 0 | (_, col) # _ \<Rightarrow> length col)"

text \<open>
  scikit-learn is not part of the repository: its functions are arguments of the model,
  each free to raise. \<open>sk_fit\<close> is the construction of the random forest with the
  parameters of the source followed by \<open>fit\<close>; \<open>sk_train_test_split\<close> is called with
  \<open>test_size = TEST_SPLIT_RATIO\<close> and \<open>random_state = 42\<close>.
\<close>

record 'm sklearn =
  sk_train_test_split ::
    "dataframe \<Rightarrow> dataframe \<Rightarrow> py_error + (dataframe \<times> dataframe \<times> dataframe \<times> dataframe)"
  sk_fit :: "dataframe \<Rightarrow> real list \<Rightarrow> py_error + 'm"
  sk_predict :: "'m \<Rightarrow> dataframe \<Rightarrow> py_error + real list"
  sk_predict_proba :: "'m \<Rightarrow> dataframe \<Rightarrow> py_error + real list list"
  sk_accuracy_score :: "real list \<Rightarrow> real list \<Rightarrow> py_error + real"

definition FEATURE_NAMES :: "string list" where
  "FEATURE_NAMES = [''temperature'', ''humidity'', ''soil_moisture'', ''light_intensity'']"

definition TARGET_ACTUATORS :: "string list" where
  "TARGET_ACTUATORS = [''fan'', ''pump'', ''light'']"

text \<open>
  The controller. \<open>models\<close> is a \<open>dict\<close>: an association list in insertion order, written
  with \<open>AList.update\<close>, which replaces the value of a present key in place and appends an
  absent one.
\<close>

record 'm actuator_controller =
  models :: "(string \<times> 'm) list"
  feature_names :: "string list"
  target_names :: "string list"
  is_trained :: bool


text \<open>
  The loop of \<open>train\<close> over \<open>self.target_names\<close>. An exception leaves the loop with the
  models stored so far: the object is returned beside the result in both cases. The
  classification report and the feature importances only feed the log.
\<close>

fun train_loop ::
  "'m sklearn \<Rightarrow> dataframe \<Rightarrow> dataframe \<Rightarrow> dataframe \<Rightarrow> dataframe \<Rightarrow> string list
     \<Rightarrow> 'm actuator_controller \<Rightarrow> (string \<times> real) list
     \<Rightarrow> (py_error + (string \<times> real) list) \<times> 'm actuator_controller" where
  "train_loop lib X_train X_test y_train y_test [] c accuracies = (Inr accuracies, c)"
| "train_loop lib X_train X_test y_train y_test (actuator # rest) c accuracies =
     (case df_getitem y_train actuator of
        Inl e \<Rightarrow> (Inl e, c)
      | Inr y_col \<Rightarrow>
     (case sk_fit lib X_train y_col of
        Inl e \<Rightarrow> (Inl e, c)
      | Inr model \<Rightarrow>
     (case sk_predict lib model X_test of
        Inl e \<Rightarrow> (Inl e, c)
      | Inr y_pred \<Rightarrow>
     (case df_getitem y_test actuator of
        Inl e \<Rightarrow> (Inl e, c)
      | Inr y_true \<Rightarrow>
     (case sk_accuracy_score lib y_true y_pred of
        Inl e \<Rightarrow> (Inl e, c)
      | Inr accuracy \<Rightarrow>
          train_loop lib X_train X_test y_train y_test rest
            (c\<lparr>models := AList.update actuator model (models c)\<rparr>)
            (AList.update actuator accuracy accuracies))))))"

definition train ::
  "'m sklearn \<Rightarrow> 'm actuator_controller \<Rightarrow> dataframe \<Rightarrow> dataframe
     \<Rightarrow> (py_error + (string \<times> real) list) \<times> 'm actuator_controller" where
  "train lib c features_df targets_df =
     (case sk_train_test_split lib features_df targets_df of
        Inl e \<Rightarrow> (Inl e, c)
      | Inr (X_train, X_test, y_train, y_test) \<Rightarrow>
          (case train_loop lib X_train X_test y_train y_test (target_names c) c [] of
             (Inl e, c') \<Rightarrow> (Inl e, c')
           | (Inr accuracies, c') \<Rightarrow> (Inr accuracies, c'\<lparr>is_trained := True\<rparr>)))"

text \<open>
  The input check shared by \<open>predict\<close> and \<open>predict_with_confidence\<close>: the first declared
  feature missing from the reading, and the one-row frame
  \<open>pd.DataFrame([sensor_data])[self.feature_names]\<close>.
\<close>

definition missing_feature :: "'m actuator_controller \<Rightarrow> (string \<rightharpoonup> real) \<Rightarrow> string option" where
  "missing_feature c sensor_data = find (\<lambda>feature. sensor_data feature = None) (feature_names c)"

definition input_frame :: "'m actuator_controller \<Rightarrow> (string \<rightharpoonup> real) \<Rightarrow> dataframe" where
  "input_frame c sensor_data = map (\<lambda>feature. (feature, [the (sensor_data feature)])) (feature_names c)"



text \<open>\<open>np.argmax\<close> of a non-empty vector: the first position of its largest entry.\<close>

fun argmax_from :: "real list \<Rightarrow> nat \<Rightarrow> nat \<Rightarrow> real \<Rightarrow> nat" where
  "argmax_from [] i best best_val = best"
| "argmax_from (x # xs) i best best_val =
     (if x > best_val then argmax_from xs (Suc i) i x
      else argmax_from xs (Suc i) best best_val)"

definition argmax :: "real list \<Rightarrow> py_error + nat" where
  "argmax xs = (case xs of
                  [] \<Rightarrow> Inl (ValueError ''attempt to get argmax of an empty sequence'')
                | x # rest \<Rightarrow> Inr (argmax_from rest 1 0 x))"

fun predict_with_confidence_loop ::
  "'m sklearn \<Rightarrow> dataframe \<Rightarrow> (string \<times> 'm) list \<Rightarrow> (string \<times> bool \<times> real) list
     \<Rightarrow> py_error + (string \<times> bool \<times> real) list" where
  "predict_with_confidence_loop lib X [] predictions = Inr predictions"
| "predict_with_confidence_loop lib X ((actuator, model) # rest) predictions =
     (case sk_predict_proba lib model X of
        Inl e \<Rightarrow> Inl e
      | Inr [] \<Rightarrow> Inl IndexError
      | Inr (pred_proba # _) \<Rightarrow>
          (case argmax pred_proba of
             Inl e \<Rightarrow> Inl e
           | Inr pred_class \<Rightarrow>
               predict_with_confidence_loop lib X rest
                 (AList.update actuator (pred_class \<noteq> 0, pred_proba ! pred_class) predictions)))"

definition predict_with_confidence ::
  "'m sklearn \<Rightarrow> 'm actuator_controller \<Rightarrow> (string \<rightharpoonup> real)
     \<Rightarrow> py_error + (string \<times> bool \<times> real) list" where
  "predict_with_confidence lib c sensor_data =
     (if \<not> is_trained c then Inl (ValueError ''Models must be trained before prediction'')
      else case missing_feature c sensor_data of
             Some feature \<Rightarrow> Inl (ValueError (''Missing feature: '' @ feature))
           | None \<Rightarrow> predict_with_confidence_loop lib (input_frame c sensor_data) (models c) [])"




subsection \<open>machine-learning/trend_predictor.py\<close>

definition FORECAST_INTERVAL_MINUTES :: int where
  "FORECAST_INTERVAL_MINUTES = 30"

text \<open>
  The predictor. \<open>'r\<close> is a fitted ridge regression together with the polynomial
  feature transform; the history buffers are a \<open>dict\<close> from metric names to lists of
  (timestamp, value) pairs.
\<close>

record 'r trend_predictor =
  trend_models :: "(string \<times> 'r) list"
  trend_is_trained :: bool
  history_buffers :: "string \<rightharpoonup> (real \<times> real) list"
  max_buffer_size :: int

definition trend_predictor_init :: "'r trend_predictor" where
  "trend_predictor_init =
     \<lparr>trend_models = [], trend_is_trained = False,
      history_buffers = [''temperature'' \<mapsto> [], ''humidity'' \<mapsto> [],
                         ''soil_moisture'' \<mapsto> [], ''light_intensity'' \<mapsto> []],
      max_buffer_size = 1440\<rparr>"

text \<open>
  One entry of a forecast. \<open>val\<close> is the key \<open>'value'\<close> of the source, \<open>time\<close> the
  wall clock \<open>'%H:%M'\<close> of the moment the point is built plus \<open>minutes_ahead\<close>.
\<close>

record forecast_point =
  time :: string
  minutes_ahead :: int
  val :: real
  confidence :: real

definition two_digits :: "nat \<Rightarrow> string" where
  "two_digits n = [char_of (48 + n div 10 mod 10), char_of (48 + n mod 10)]"

text \<open>
  \<open>(datetime.now() + timedelta(minutes=m)).strftime('%H:%M')\<close>, with \<open>now\<close> given as
  the minute of the day.
\<close>

definition strftime_HM :: "nat \<Rightarrow> int \<Rightarrow> string" where
  "strftime_HM now m =
     (let t = nat ((int now + m) mod 1440)
      in two_digits (t div 60) @ '':'' @ two_digits (t mod 60))"

text \<open>
  \<open>np.arange(1, num_predictions + 1) * FORECAST_INTERVAL_MINUTES\<close>
\<close>

definition future_timestamps :: "int \<Rightarrow> int list" where
  "future_timestamps hours_ahead =
     (let num_predictions = (hours_ahead * 60) div FORECAST_INTERVAL_MINUTES
      in map (\<lambda>i. i * FORECAST_INTERVAL_MINUTES) [1..num_predictions])"

text \<open>
  \<open>_predict_simple_trends\<close>. \<open>clock metric m\<close> is the minute of the day read by
  \<open>datetime.now()\<close> while the point \<open>m\<close> minutes ahead of \<open>metric\<close> is built, and
  \<open>noise metric m\<close> the number drawn by \<open>np.random.normal\<close> for it.
\<close>

definition trends :: "(string \<times> real) list" where
  "trends = [(''temperature'', 0.5), (''humidity'', - 1.0), (''soil_moisture'', - 2.0),
             (''light_intensity'', 0.0)]"

definition np_clip :: "real \<Rightarrow> real \<Rightarrow> real \<Rightarrow> real" where
  "np_clip x lo hi = min (max x lo) hi"

definition simple_point ::
  "(string \<Rightarrow> int \<Rightarrow> nat) \<Rightarrow> (string \<Rightarrow> int \<Rightarrow> real) \<Rightarrow> int \<Rightarrow> string \<Rightarrow> real \<Rightarrow> real \<Rightarrow> int
     \<Rightarrow> forecast_point" where
  "simple_point clock noise hours_ahead metric current_value trend i =
     (let minutes_ahead = i * FORECAST_INTERVAL_MINUTES;
          hours_fraction = real_of_int minutes_ahead / 60;
          predicted_value = current_value + trend * hours_fraction;
          predicted_value = predicted_value + noise metric minutes_ahead;
          predicted_value =
            (if metric = ''temperature'' then np_clip predicted_value 10 40
             else if metric \<in> set [''humidity'', ''soil_moisture'', ''light_intensity'']
             then np_clip predicted_value 0 100
             else predicted_value);
          confidence = max 0.3 (1.0 - hours_fraction / real_of_int hours_ahead)
      in \<lparr>time = strftime_HM (clock metric minutes_ahead) minutes_ahead,
          minutes_ahead = minutes_ahead, val = predicted_value, confidence = confidence\<rparr>)"

fun predict_simple_trends_loop ::
  "(string \<Rightarrow> int \<Rightarrow> nat) \<Rightarrow> (string \<Rightarrow> int \<Rightarrow> real) \<Rightarrow> int \<Rightarrow> (string \<times> real) list
     \<Rightarrow> (string \<times> forecast_point list) list \<Rightarrow> (string \<times> forecast_point list) list" where
  "predict_simple_trends_loop clock noise hours_ahead [] predictions = predictions"
| "predict_simple_trends_loop clock noise hours_ahead ((metric, current_value) # rest) predictions =
     (case map_of trends metric of
        None \<Rightarrow> predict_simple_trends_loop clock noise hours_ahead rest predictions
      | Some trend \<Rightarrow>
          predict_simple_trends_loop clock noise hours_ahead rest
            (AList.update metric
               (map (simple_point clock noise hours_ahead metric current_value trend)
                  [1..(hours_ahead * 60) div FORECAST_INTERVAL_MINUTES])
               predictions))"

definition predict_simple_trends ::
  "(string \<Rightarrow> int \<Rightarrow> nat) \<Rightarrow> (string \<Rightarrow> int \<Rightarrow> real) \<Rightarrow> (string \<times> real) list \<Rightarrow> int
     \<Rightarrow> (string \<times> forecast_point list) list" where
  "predict_simple_trends clock noise current_data hours_ahead =
     predict_simple_trends_loop clock noise hours_ahead current_data []"

text \<open>
  \<open>predict_future\<close>. \<open>ridge_predict model ts\<close> is
  \<open>model.predict(self.poly_features.transform(ts.reshape(-1, 1)))\<close>, a call into
  scikit-learn that may raise. The three arrays are zipped, so a forecast is as long as
  the shortest of them.
\<close>

definition trained_point ::
  "(string \<Rightarrow> int \<Rightarrow> nat) \<Rightarrow> string \<Rightarrow> int \<times> real \<times> real \<Rightarrow> forecast_point" where
  "trained_point clock metric = (\<lambda>(timestamp, pred_value, conf).
     \<lparr>time = strftime_HM (clock metric timestamp) timestamp,
      minutes_ahead = timestamp, val = pred_value, confidence = conf\<rparr>)"

definition confidences :: "int \<Rightarrow> real list" where
  "confidences hours_ahead =
     map (\<lambda>t. exp (- real_of_int t / real_of_int (hours_ahead * 60))) (future_timestamps hours_ahead)"

fun predict_future_loop ::
  "('r \<Rightarrow> int list \<Rightarrow> py_error + real list) \<Rightarrow> (string \<Rightarrow> int \<Rightarrow> nat) \<Rightarrow> 'r trend_predictor
     \<Rightarrow> int \<Rightarrow> (string \<times> real) list \<Rightarrow> (string \<times> forecast_point list) list
     \<Rightarrow> py_error + (string \<times> forecast_point list) list" where
  "predict_future_loop ridge_predict clock p hours_ahead [] predictions = Inr predictions"
| "predict_future_loop ridge_predict clock p hours_ahead ((metric, value) # rest) predictions =
     (case map_of (trend_models p) metric of
        None \<Rightarrow> predict_future_loop ridge_predict clock p hours_ahead rest predictions
      | Some model \<Rightarrow>
          (case ridge_predict model (future_timestamps hours_ahead) of
             Inl e \<Rightarrow> Inl e
           | Inr y_pred \<Rightarrow>
               predict_future_loop ridge_predict clock p hours_ahead rest
                 (AList.update metric
                    (map (trained_point clock metric)
                       (zip (future_timestamps hours_ahead)
                          (zip y_pred (confidences hours_ahead))))
                    predictions)))"

definition predict_future ::
  "('r \<Rightarrow> int list \<Rightarrow> py_error + real list) \<Rightarrow> (string \<Rightarrow> int \<Rightarrow> nat)
     \<Rightarrow> (string \<Rightarrow> int \<Rightarrow> real) \<Rightarrow> 'r trend_predictor \<Rightarrow> (string \<times> real) list \<Rightarrow> int
     \<Rightarrow> py_error + (string \<times> forecast_point list) list" where
  "predict_future ridge_predict clock noise p current_data hours_ahead =
     (if \<not> trend_is_trained p
      then Inr (predict_simple_trends clock noise current_data hours_ahead)
      else predict_future_loop ridge_predict clock p hours_ahead current_data [])"

text \<open>\<open>detect_anomalies\<close>: the readings are visited in the order of the dictionary.\<close>

record anomaly =
  metric :: string
  current_value :: real
  predicted_value :: real
  deviation :: real
  severity :: string

fun detect_anomalies_loop ::
  "(string \<times> real) list \<Rightarrow> (string \<times> forecast_point list) list \<Rightarrow> anomaly list \<Rightarrow> anomaly list" where
  "detect_anomalies_loop [] predictions anomalies = anomalies"
| "detect_anomalies_loop ((m, v) # rest) predictions anomalies =
     (case map_of predictions m of
        None \<Rightarrow> detect_anomalies_loop rest predictions anomalies
      | Some [] \<Rightarrow> detect_anomalies_loop rest predictions anomalies
      | Some (first_pred # _) \<Rightarrow>
          let predicted = val first_pred;
              dev = \<bar>v - predicted\<bar>;
              threshold =
                (if m = ''temperature'' then max 8.0 (\<bar>v\<bar> * 0.15)
                 else if m = ''light_intensity'' then max 35.0 (\<bar>v\<bar> * 0.40)
                 else max 30.0 (\<bar>v\<bar> * 0.40))
          in if dev > threshold
             then detect_anomalies_loop rest predictions
                    (anomalies @
                       [\<lparr>metric = m, current_value = v, predicted_value = predicted,
                         deviation = dev,
                         severity = (if dev > threshold * 2 then ''high'' else ''medium'')\<rparr>])
             else detect_anomalies_loop rest predictions anomalies)"

definition detect_anomalies ::
  "(string \<times> real) list \<Rightarrow> (string \<times> forecast_point list) list \<Rightarrow> anomaly list" where
  "detect_anomalies current_data predictions = detect_anomalies_loop current_data predictions []"

text \<open>
  \<open>update_history\<close>: \<open>pop(0)\<close> follows the \<open>append\<close>, so the list it shortens is never
  empty.
\<close>

fun update_history ::
  "'r trend_predictor \<Rightarrow> real \<Rightarrow> (string \<times> real) list \<Rightarrow> 'r trend_predictor" where
  "update_history p timestamp [] = p"
| "update_history p timestamp ((m, v) # rest) =
     (case history_buffers p m of
        None \<Rightarrow> update_history p timestamp rest
      | Some buffer \<Rightarrow>
          let appended = buffer @ [(timestamp, v)];
              kept = (if int (length appended) > max_buffer_size p then tl appended else appended)
          in update_history (p\<lparr>history_buffers := (history_buffers p)(m \<mapsto> kept)\<rparr>) timestamp rest)"

text \<open>A sequence of calls of \<open>update_history\<close>, each with its timestamp and reading.\<close>

fun update_history_calls ::
  "'r trend_predictor \<Rightarrow> (real \<times> (string \<times> real) list) list \<Rightarrow> 'r trend_predictor" where
  "update_history_calls p [] = p"
| "update_history_calls p ((timestamp, data) # calls) =
     update_history_calls (update_history p timestamp data) calls"

subsection \<open>The anomaly rule as the specification words it\<close>

text \<open>
  The threshold of the four metrics the specification names, and the record it asks for:
  emitted when the deviation exceeds the threshold, \<open>high\<close> when it exceeds twice the
  threshold.
\<close>

definition spec_threshold :: "string \<Rightarrow> real \<Rightarrow> real option" where
  "spec_threshold m live =
     (if m = ''temperature'' then Some (max 8.0 (0.15 * \<bar>live\<bar>))
      else if m = ''light_intensity'' then Some (max 35.0 (0.40 * \<bar>live\<bar>))
      else if m = ''humidity'' \<or> m = ''soil_moisture'' then Some (max 30.0 (0.40 * \<bar>live\<bar>))
      else None)"

definition spec_anomaly :: "string \<Rightarrow> real \<Rightarrow> real \<Rightarrow> anomaly list" where
  "spec_anomaly m live predicted =
     (case spec_threshold m live of
        None \<Rightarrow> []
      | Some threshold \<Rightarrow>
          if \<bar>live - predicted\<bar> > threshold
          then [\<lparr>metric = m, current_value = live, predicted_value = predicted,
                 deviation = \<bar>live - predicted\<bar>,
                 severity = (if \<bar>live - predicted\<bar> > 2 * threshold then ''high'' else ''medium'')\<rparr>]
          else [])"

definition spec_detect_anomalies ::
  "(string \<times> real) list \<Rightarrow> (string \<times> forecast_point list) list \<Rightarrow> anomaly list" where
  "spec_detect_anomalies current_data predictions =
     concat (map (\<lambda>(m, live).
                    case map_of predictions m of
                      Some (nearest # _) \<Rightarrow> spec_anomaly m live (val nearest)
                    | _ \<Rightarrow> [])
               current_data)"

subsection \<open>Concrete data for evaluating the model\<close>

text \<open>
  A stand-in for scikit-learn, used only to run \<open>train\<close> and \<open>predict_future\<close> on
  concrete data. The split has the sizes scikit-learn computes for \<open>test_size = 0.2\<close>
  (the test part is \<open>\<lceil>0.2 n\<rceil>\<close> rows, and an empty training part is a \<open>ValueError\<close>)
  and leaves the rows unshuffled; the classifier answers the first label it was fitted
  on; the regression answers its one coefficient at every time.
\<close>

definition df_take :: "nat \<Rightarrow> dataframe \<Rightarrow> dataframe" where
  "df_take n df = map (\<lambda>(name, col). (name, take n col)) df"

definition df_drop :: "nat \<Rightarrow> dataframe \<Rightarrow> dataframe" where
  "df_drop n df = map (\<lambda>(name, col). (name, drop n col)) df"

definition stub_train_test_split ::
  "dataframe \<Rightarrow> dataframe \<Rightarrow> py_error + (dataframe \<times> dataframe \<times> dataframe \<times> dataframe)" where
  "stub_train_test_split X y =
     (let n_samples = df_rows X;
          n_test = (n_samples + 4) div 5;
          n_train = n_samples - n_test
      in if n_train = 0 then Inl (ValueError ''the resulting train set will be empty'')
         else Inr (df_take n_train X, df_drop n_train X, df_take n_train y, df_drop n_train y))"

definition stub_fit :: "dataframe \<Rightarrow> real list \<Rightarrow> py_error + real" where
  "stub_fit X y = (case y of [] \<Rightarrow> Inl (ValueError ''empty'') | label # _ \<Rightarrow> Inr label)"

definition stub_predict :: "real \<Rightarrow> dataframe \<Rightarrow> py_error + real list" where
  "stub_predict model X = Inr (replicate (df_rows X) model)"

definition stub_predict_proba :: "real \<Rightarrow> dataframe \<Rightarrow> py_error + real list list" where
  "stub_predict_proba model X =
     Inr (replicate (df_rows X) (if model = 0 then [1, 0] else [0, 1]))"

definition stub_accuracy_score :: "real list \<Rightarrow> real list \<Rightarrow> py_error + real" where
  "stub_accuracy_score y_true y_pred =
     (if length y_true \<noteq> length y_pred \<or> y_true = []
      then Inl (ValueError ''inconsistent numbers of samples'')
      else Inr (real (length (filter (\<lambda>(a, b). a = b) (zip y_true y_pred)))
                  / real (length y_true)))"

definition stub_sklearn :: "real sklearn" where
  "stub_sklearn =
     \<lparr>sk_train_test_split = stub_train_test_split, sk_fit = stub_fit,
      sk_predict = stub_predict, sk_predict_proba = stub_predict_proba,
      sk_accuracy_score = stub_accuracy_score\<rparr>"

text \<open>
  A controller that was trained before, with a model that switches every actuator on;
  one labelled reading, in which every actuator is off; and the controller that loads
  the file an untrained controller has saved.
\<close>

definition trained_controller :: "real actuator_controller" where
  "trained_controller =
     \<lparr>models = [(''fan'', 1), (''pump'', 1), (''light'', 1)],
      feature_names = FEATURE_NAMES, target_names = TARGET_ACTUATORS, is_trained = True\<rparr>"

definition one_feature_row :: dataframe where
  "one_feature_row = [(''temperature'', [22]), (''humidity'', [60]),
                      (''soil_moisture'', [50]), (''light_intensity'', [70])]"

definition one_target_row :: dataframe where
  "one_target_row = [(''fan'', [0]), (''pump'', [0]), (''light'', [0])]"


definition sample_reading :: "string \<rightharpoonup> real" where
  "sample_reading = [''temperature'' \<mapsto> 32, ''humidity'' \<mapsto> 45,
                     ''soil_moisture'' \<mapsto> 28, ''light_intensity'' \<mapsto> 80]"

text \<open>
  A trained trend predictor with one constant model, a clock that stands at noon and a
  noise source that draws zero.
\<close>

definition stub_ridge_predict :: "real \<Rightarrow> int list \<Rightarrow> py_error + real list" where
  "stub_ridge_predict model ts = Inr (map (\<lambda>_. model) ts)"

definition noon :: "string \<Rightarrow> int \<Rightarrow> nat" where
  "noon m t = 720"

definition no_noise :: "string \<Rightarrow> int \<Rightarrow> real" where
  "no_noise m t = 0"

definition trained_predictor :: "real trend_predictor" where
  "trained_predictor =
     \<lparr>trend_models = [(''temperature'', 26)], trend_is_trained = True,
      history_buffers = [''temperature'' \<mapsto> [], ''humidity'' \<mapsto> [],
                         ''soil_moisture'' \<mapsto> [], ''light_intensity'' \<mapsto> []],
      max_buffer_size = 1440\<rparr>"

text \<open>Ten accepted pump commands, one second apart, for the rate limit.\<close>

definition pump_on :: "int \<Rightarrow> command" where
  "pump_on i = \<lparr>cmd_actuator = ''pump'', cmd_action = ''ON'', cmd_duration = 5,
                cmd_t_check = i * 1000000, cmd_t_record = i * 1000000 + 1\<rparr>"

definition ten_pump_commands :: "command list" where
  "ten_pump_commands = [pump_on 1, pump_on 2, pump_on 3, pump_on 4, pump_on 5,
                        pump_on 6, pump_on 7, pump_on 8, pump_on 9, pump_on 10]"

section \<open>Properties\<close>

subsection \<open>The safety manager\<close>

lemma check_rate_limit_history:
  "command_history (fst (snd (check_rate_limit s a now))) =
     (command_history s)(a := filter (\<lambda>t. t > now - timedelta_minutes 1) (command_history s a))"
  by (simp add: check_rate_limit_def Let_def)

lemma check_rate_limit_flag:
  "fst (check_rate_limit s a now) \<longleftrightarrow>
     length (filter (\<lambda>t. t > now - timedelta_minutes 1) (command_history s a)) < MAX_COMMANDS_PER_MINUTE"
  by (simp add: check_rate_limit_def Let_def)

lemma validate_command_accept_iff:
  "fst (validate_command s a act d t1 t2) \<longleftrightarrow>
     a \<in> {''pump'', ''fan'', ''grow_light''} \<and> act \<in> {''ON'', ''OFF''} \<and> 0 \<le> d \<and>
     length (filter (\<lambda>t. t > t1 - timedelta_minutes 1) (command_history s a)) < MAX_COMMANDS_PER_MINUTE"
  unfolding validate_command_def
  by (auto simp: check_rate_limit_def Let_def split: prod.splits bool.splits)

lemma validate_command_history:
  "command_history (fst (snd (validate_command s a act d t1 t2))) b =
     (if a \<in> {''pump'', ''fan'', ''grow_light''} \<and> act \<in> {''ON'', ''OFF''} \<and> 0 \<le> d \<and> b = a
      then filter (\<lambda>t. t > t1 - timedelta_minutes 1) (command_history s a)
             @ (if fst (validate_command s a act d t1 t2) then [t2] else [])
      else command_history s b)"
  unfolding validate_command_def
  by (auto simp: check_rate_limit_def record_command_def Let_def split: prod.splits bool.splits)

lemma validate_command_accepted_history:
  "fst (validate_command s a act d t1 t2) \<Longrightarrow>
   command_history (fst (snd (validate_command s a act d t1 t2))) a =
     filter (\<lambda>t. t > t1 - timedelta_minutes 1) (command_history s a) @ [t2]"
  unfolding validate_command_def
  by (auto simp: check_rate_limit_def record_command_def Let_def split: if_splits)

lemma validate_command_other_history:
  "\<not> fst (validate_command s a act d t1 t2) \<or> b \<noteq> a \<Longrightarrow>
   command_history (fst (snd (validate_command s a act d t1 t2))) b = command_history s b \<or>
   command_history (fst (snd (validate_command s a act d t1 t2))) b =
     filter (\<lambda>t. t > t1 - timedelta_minutes 1) (command_history s b)"
  unfolding validate_command_def
  by (auto simp: check_rate_limit_def record_command_def Let_def split: if_splits)

lemma filter_window:
  fixes b :: int
  assumes "t1 - timedelta_minutes 1 \<le> b"
  shows "filter (\<lambda>t. t > b) (filter (\<lambda>t. t > t1 - timedelta_minutes 1) xs) = filter (\<lambda>t. t > b) xs"
  using assms by (induction xs) auto

lemma run_commands_window:
  assumes "\<forall>c \<in> set cs. cmd_t_check c - timedelta_minutes 1 \<le> b"
  shows "filter (\<lambda>t. t > b) (command_history (run_commands s cs) a) =
         filter (\<lambda>t. t > b) (command_history s a) @ filter (\<lambda>t. t > b) (accepted_times s cs a)"
  using assms
proof (induction cs arbitrary: s)
  case Nil
  then show ?case by simp
next
  case (Cons c cs)
  let ?s1 = "fst (snd (validate s c))"
  have tail: "\<forall>c \<in> set cs. cmd_t_check c - timedelta_minutes 1 \<le> b"
    using Cons.prems by simp
  have head: "cmd_t_check c - timedelta_minutes 1 \<le> b"
    using Cons.prems by simp
  have win: "filter (\<lambda>t. t > b) (filter (\<lambda>t. t > cmd_t_check c - timedelta_minutes 1) xs)
               = filter (\<lambda>t. t > b) xs" for xs
    by (rule filter_window [OF head])
  have step: "filter (\<lambda>t. t > b) (command_history ?s1 a) =
      filter (\<lambda>t. t > b) (command_history s a) @
      filter (\<lambda>t. t > b) (if fst (validate s c) \<and> cmd_actuator c = a then [cmd_t_record c] else [])"
  proof (cases "fst (validate s c) \<and> cmd_actuator c = a")
    case True
    then have "command_history ?s1 a =
        filter (\<lambda>t. t > cmd_t_check c - timedelta_minutes 1) (command_history s a) @ [cmd_t_record c]"
      using validate_command_accepted_history [of s "cmd_actuator c" "cmd_action c" "cmd_duration c" "cmd_t_check c" "cmd_t_record c"]
      by (auto simp add: validate_def)
    then show ?thesis using True win by (simp del: filter_filter)
  next
    case False
    then have "command_history ?s1 a = command_history s a \<or> command_history ?s1 a =
        filter (\<lambda>t. t > cmd_t_check c - timedelta_minutes 1) (command_history s a)"
      using validate_command_other_history [of s "cmd_actuator c" "cmd_action c" "cmd_duration c" "cmd_t_check c" "cmd_t_record c" a]
      by (auto simp add: validate_def)
    then show ?thesis using False win by (auto simp del: filter_filter)
  qed
  show ?case
    using Cons.IH [OF tail, of ?s1] step by simp
qed

text \<open>
  C2: a command for a whitelisted actuator with action \<open>ON\<close> or \<open>OFF\<close> whose duration is
  above the cap of that actuator (pump 1800, fan 3600, grow light 14400) is accepted when
  the window of the last minute holds fewer than ten commands. The call returns \<open>True\<close>,
  records the command, and logs one warning and nothing else. It has no output through
  which a duration could be changed.
\<close>

theorem cap_exceeded_still_accepted:
  assumes "(a, cap) \<in> {(''pump'', 1800), (''fan'', 3600), (''grow_light'', 14400)}"
    and "act \<in> {''ON'', ''OFF''}"
    and "d > cap"
    and "length (filter (\<lambda>t. t > t1 - timedelta_minutes 1) (command_history s a)) < 10"
  shows "validate_command s a act d t1 t2 =
           (True,
            s\<lparr>command_history := (command_history s)
                (a := filter (\<lambda>t. t > t1 - timedelta_minutes 1) (command_history s a) @ [t2])\<rparr>,
            [Warning_duration_exceeds_max a cap])
         \<and> levelname (Warning_duration_exceeds_max a cap) = WARNING"
  using assms
  by (auto simp: validate_command_def check_rate_limit_def record_command_def Let_def
        dict_get_def MAX_DURATIONS_def MAX_COMMANDS_PER_MINUTE_def)

theorem cap_exceeded_still_accepted_witness:
  "validate_command safety_manager_init ''pump'' ''ON'' 2000 100000000 100000001 =
     (True,
      safety_manager_init\<lparr>command_history := (command_history safety_manager_init)
          (''pump'' := filter (\<lambda>t. t > 100000000 - timedelta_minutes 1)
                         (command_history safety_manager_init ''pump'') @ [100000001])\<rparr>,
      [Warning_duration_exceeds_max ''pump'' 1800])
   \<and> levelname (Warning_duration_exceeds_max ''pump'' 1800) = WARNING"
  using cap_exceeded_still_accepted [of "''pump''" 1800 "''ON''" 2000 100000000 safety_manager_init 100000001]
  by (simp add: safety_manager_init_def)

text \<open>
  C3: when ten commands for an actuator were accepted and recorded within the minute
  before \<open>now\<close>, in a run whose clock readings do not exceed \<open>now\<close>, the next call for
  that actuator at \<open>now\<close> is rejected. A call is accepted exactly when the name, action
  and duration are valid and the window of the last minute holds fewer than ten recorded
  commands, and an accepted call appends its timestamp to that window.
\<close>

theorem eleventh_command_rejected:
  "((\<forall>c \<in> set cs. cmd_t_check c \<le> now) \<and>
    10 \<le> length (filter (\<lambda>t. t > now - timedelta_minutes 1) (accepted_times s cs a))
      \<longrightarrow> \<not> fst (validate_command (run_commands s cs) a act d now now'))
   \<and> (fst (validate_command s' a' act' d' t1 t2) \<longleftrightarrow>
        a' \<in> {''pump'', ''fan'', ''grow_light''} \<and> act' \<in> {''ON'', ''OFF''} \<and> 0 \<le> d' \<and>
        length (filter (\<lambda>t. t > t1 - timedelta_minutes 1) (command_history s' a')) < 10)
   \<and> (fst (validate_command s' a' act' d' t1 t2) \<longrightarrow>
        command_history (fst (snd (validate_command s' a' act' d' t1 t2))) a' =
          filter (\<lambda>t. t > t1 - timedelta_minutes 1) (command_history s' a') @ [t2])"
proof (intro conjI impI)
  assume h: "(\<forall>c \<in> set cs. cmd_t_check c \<le> now) \<and>
    10 \<le> length (filter (\<lambda>t. t > now - timedelta_minutes 1) (accepted_times s cs a))"
  then have "\<forall>c \<in> set cs. cmd_t_check c - timedelta_minutes 1 \<le> now - timedelta_minutes 1"
    by simp
  from run_commands_window [OF this, of s a]
  have "length (filter (\<lambda>t. t > now - timedelta_minutes 1) (command_history (run_commands s cs) a))
          \<ge> length (filter (\<lambda>t. t > now - timedelta_minutes 1) (accepted_times s cs a))"
    by simp
  with h have "\<not> length (filter (\<lambda>t. t > now - timedelta_minutes 1)
                   (command_history (run_commands s cs) a)) < MAX_COMMANDS_PER_MINUTE"
    by (simp add: MAX_COMMANDS_PER_MINUTE_def)
  then show "\<not> fst (validate_command (run_commands s cs) a act d now now')"
    by (simp only: validate_command_accept_iff) simp
next
  show "fst (validate_command s' a' act' d' t1 t2) \<longleftrightarrow>
        a' \<in> {''pump'', ''fan'', ''grow_light''} \<and> act' \<in> {''ON'', ''OFF''} \<and> 0 \<le> d' \<and>
        length (filter (\<lambda>t. t > t1 - timedelta_minutes 1) (command_history s' a')) < 10"
    using validate_command_accept_iff [of s' a' act' d' t1 t2]
    by (simp only: MAX_COMMANDS_PER_MINUTE_def)
next
  assume "fst (validate_command s' a' act' d' t1 t2)"
  then show "command_history (fst (snd (validate_command s' a' act' d' t1 t2))) a' =
          filter (\<lambda>t. t > t1 - timedelta_minutes 1) (command_history s' a') @ [t2]"
    by (rule validate_command_accepted_history)
qed

lemma ten_pump_accepted:
  "accepted_times safety_manager_init ten_pump_commands ''pump'' =
     [1000001, 2000001, 3000001, 4000001, 5000001, 6000001, 7000001, 8000001, 9000001, 10000001]"
  by (simp add: ten_pump_commands_def pump_on_def validate_def validate_command_def
        check_rate_limit_def record_command_def safety_manager_init_def Let_def
        dict_get_def MAX_DURATIONS_def MAX_COMMANDS_PER_MINUTE_def timedelta_minutes_def)

theorem eleventh_command_rejected_witness:
  "list_all (\<lambda>c. cmd_t_check c \<le> 11000000) ten_pump_commands \<and>
   10 \<le> length (filter (\<lambda>t. t > 11000000 - timedelta_minutes 1)
                  (accepted_times safety_manager_init ten_pump_commands ''pump'')) \<and>
   \<not> fst (validate_command (run_commands safety_manager_init ten_pump_commands)
            ''pump'' ''ON'' 5 11000000 11000001) \<and>
   fst (validate_command safety_manager_init ''pump'' ''ON'' 5 1000000 1000001) \<and>
   command_history (fst (snd (validate_command safety_manager_init ''pump'' ''ON'' 5 1000000 1000001)))
     ''pump'' = [1000001]"
proof -
  have h: "(\<forall>c \<in> set ten_pump_commands. cmd_t_check c \<le> 11000000) \<and>
     10 \<le> length (filter (\<lambda>t. t > 11000000 - timedelta_minutes 1)
                  (accepted_times safety_manager_init ten_pump_commands ''pump''))"
    unfolding ten_pump_accepted
    by (simp add: ten_pump_commands_def pump_on_def timedelta_minutes_def)
  have w: "length (filter (\<lambda>t. t > 1000000 - timedelta_minutes 1)
                     (command_history safety_manager_init ''pump'')) < 10"
    by (simp add: safety_manager_init_def)
  show ?thesis
    using h w
      eleventh_command_rejected [of ten_pump_commands 11000000 safety_manager_init "''pump''"
        "''ON''" 5 11000001 safety_manager_init "''pump''" "''ON''" 5 1000000 1000001]
    by (simp add: safety_manager_init_def list_all_iff)
qed

text \<open>
  C10: a rejected call appends nothing to any history: the history of every actuator is
  unchanged, except that a call rejected by the rate limit has dropped the entries older
  than a minute from the history of its actuator. Only an accepted call appends a
  timestamp, to the history of its own actuator.
\<close>

theorem rejected_command_not_recorded:
  "(\<not> fst (validate_command s a act d t1 t2) \<longrightarrow>
      command_history (fst (snd (validate_command s a act d t1 t2))) b =
        (if b = a \<and> a \<in> {''pump'', ''fan'', ''grow_light''} \<and> act \<in> {''ON'', ''OFF''} \<and> 0 \<le> d
         then filter (\<lambda>t. t > t1 - timedelta_minutes 1) (command_history s b)
         else command_history s b))
   \<and> (fst (validate_command s a act d t1 t2) \<longrightarrow>
      command_history (fst (snd (validate_command s a act d t1 t2))) b =
        (if b = a
         then filter (\<lambda>t. t > t1 - timedelta_minutes 1) (command_history s b) @ [t2]
         else command_history s b))"
  unfolding validate_command_def
  by (auto simp: check_rate_limit_def record_command_def Let_def split: if_splits)

theorem rejected_command_not_recorded_witness:
  "\<not> fst (validate_command safety_manager_init ''heater'' ''ON'' 5 1000000 1000001) \<and>
   command_history (fst (snd (validate_command safety_manager_init ''heater'' ''ON'' 5 1000000 1000001)))
     ''heater'' = [] \<and>
   \<not> fst (validate_command \<lparr>command_history = (\<lambda>_. replicate 10 900000)\<rparr> ''fan'' ''OFF'' 0 1000000 1000001) \<and>
   command_history (fst (snd (validate_command \<lparr>command_history = (\<lambda>_. replicate 10 900000)\<rparr>
                                ''fan'' ''OFF'' 0 1000000 1000001))) ''fan'' = replicate 10 900000 \<and>
   fst (validate_command safety_manager_init ''pump'' ''ON'' 5 1000000 1000001) \<and>
   command_history (fst (snd (validate_command safety_manager_init ''pump'' ''ON'' 5 1000000 1000001)))
     ''pump'' = [1000001]"
proof -
  have r1: "\<not> fst (validate_command safety_manager_init ''heater'' ''ON'' 5 1000000 1000001)"
    by (simp add: validate_command_def)
  have r2: "\<not> fst (validate_command \<lparr>command_history = (\<lambda>_. replicate 10 900000)\<rparr>
                     ''fan'' ''OFF'' 0 1000000 1000001)"
    by (simp add: validate_command_def check_rate_limit_def Let_def MAX_COMMANDS_PER_MINUTE_def
          timedelta_minutes_def dict_get_def MAX_DURATIONS_def)
  have a1: "fst (validate_command safety_manager_init ''pump'' ''ON'' 5 1000000 1000001)"
    by (simp add: validate_command_def check_rate_limit_def Let_def MAX_COMMANDS_PER_MINUTE_def
          timedelta_minutes_def dict_get_def MAX_DURATIONS_def safety_manager_init_def)
  show ?thesis
    using r1 r2 a1
      rejected_command_not_recorded [of safety_manager_init "''heater''" "''ON''" 5 1000000 1000001 "''heater''"]
      rejected_command_not_recorded [of "\<lparr>command_history = (\<lambda>_. replicate 10 900000)\<rparr>"
         "''fan''" "''OFF''" 0 1000000 1000001 "''fan''"]
      rejected_command_not_recorded [of safety_manager_init "''pump''" "''ON''" 5 1000000 1000001 "''pump''"]
    by (simp add: safety_manager_init_def timedelta_minutes_def)
qed

subsection \<open>The control logic\<close>

text \<open>
  C9: after \<open>deactivate_all\<close>, whatever the timers were, the timer of the pump, the fan
  and the grow light has no start time and duration zero, and \<open>get_status\<close> reports
  \<open>OFF\<close> for each of them.
\<close>

theorem deactivate_all_off:
  "actuator_timers (deactivate_all c) ''pump'' = Some \<lparr>start_time = None, duration = 0\<rparr> \<and>
   actuator_timers (deactivate_all c) ''fan'' = Some \<lparr>start_time = None, duration = 0\<rparr> \<and>
   actuator_timers (deactivate_all c) ''grow_light'' = Some \<lparr>start_time = None, duration = 0\<rparr> \<and>
   get_status (deactivate_all c) ''pump'' now = Status_OFF \<and>
   get_status (deactivate_all c) ''fan'' now = Status_OFF \<and>
   get_status (deactivate_all c) ''grow_light'' now = Status_OFF"
  by (simp add: deactivate_all_def deactivate_pump_def deactivate_fan_def deactivate_light_def
        get_status_def)

subsection \<open>The actuator controller\<close>

lemma train_loop_success:
  assumes "\<forall>a \<in> set tgts.
             df_getitem ytr a = Inr (ycol a) \<and> sk_fit lib Xtr (ycol a) = Inr (mdl a) \<and>
             sk_predict lib (mdl a) Xte = Inr (yp a) \<and> df_getitem yte a = Inr (yt a) \<and>
             sk_accuracy_score lib (yt a) (yp a) = Inr (acc a)"
  shows "\<exists>accs' c'. train_loop lib Xtr Xte ytr yte tgts c accs = (Inr accs', c') \<and>
           map_of (models c') = (\<lambda>a. if a \<in> set tgts then Some (mdl a) else map_of (models c) a) \<and>
           map_of accs' = (\<lambda>a. if a \<in> set tgts then Some (acc a) else map_of accs a) \<and>
           feature_names c' = feature_names c \<and> target_names c' = target_names c \<and>
           is_trained c' = is_trained c"
  using assms
proof (induction tgts arbitrary: c accs)
  case Nil
  then show ?case by simp
next
  case (Cons a rest)
  let ?c1 = "c\<lparr>models := AList.update a (mdl a) (models c)\<rparr>"
  let ?acc1 = "AList.update a (acc a) accs"
  have step: "train_loop lib Xtr Xte ytr yte (a # rest) c accs =
              train_loop lib Xtr Xte ytr yte rest ?c1 ?acc1"
    using Cons.prems by simp
  have "\<forall>b \<in> set rest.
             df_getitem ytr b = Inr (ycol b) \<and> sk_fit lib Xtr (ycol b) = Inr (mdl b) \<and>
             sk_predict lib (mdl b) Xte = Inr (yp b) \<and> df_getitem yte b = Inr (yt b) \<and>
             sk_accuracy_score lib (yt b) (yp b) = Inr (acc b)"
    using Cons.prems by simp
  from Cons.IH [OF this, of ?c1 ?acc1]
  obtain accs' c' where r: "train_loop lib Xtr Xte ytr yte rest ?c1 ?acc1 = (Inr accs', c')"
    and m: "map_of (models c') = (\<lambda>b. if b \<in> set rest then Some (mdl b) else map_of (models ?c1) b)"
    and ac: "map_of accs' = (\<lambda>b. if b \<in> set rest then Some (acc b) else map_of ?acc1 b)"
    and f: "feature_names c' = feature_names ?c1" "target_names c' = target_names ?c1"
           "is_trained c' = is_trained ?c1"
    by blast
  have m': "map_of (models c') = (\<lambda>b. if b \<in> set (a # rest) then Some (mdl b) else map_of (models c) b)"
    unfolding m by (auto simp: update_conv')
  have ac': "map_of accs' = (\<lambda>b. if b \<in> set (a # rest) then Some (acc b) else map_of accs b)"
    unfolding ac by (auto simp: update_conv')
  show ?case
    using step r m' ac' f by simp
qed

lemma train_stores_all_targets:
  assumes "sk_train_test_split lib X y = Inr (Xtr, Xte, ytr, yte)"
    and "\<forall>a \<in> set (target_names c).
          df_getitem ytr a = Inr (ycol a) \<and> sk_fit lib Xtr (ycol a) = Inr (mdl a) \<and>
          sk_predict lib (mdl a) Xte = Inr (yp a) \<and> df_getitem yte a = Inr (yt a) \<and>
          sk_accuracy_score lib (yt a) (yp a) = Inr (acc a)"
  shows "\<exists>accuracies c'. train lib c X y = (Inr accuracies, c') \<and> is_trained c' \<and>
           (\<forall>a \<in> set (target_names c).
              map_of (models c') a = Some (mdl a) \<and> map_of accuracies a = Some (acc a))"
proof -
  from train_loop_success [OF assms(2), of c "[]"]
  obtain accs c1 where r: "train_loop lib Xtr Xte ytr yte (target_names c) c [] = (Inr accs, c1)"
    and m: "map_of (models c1) = (\<lambda>a. if a \<in> set (target_names c) then Some (mdl a) else map_of (models c) a)"
    and ac: "map_of accs = (\<lambda>a. if a \<in> set (target_names c) then Some (acc a) else map_of [] a)"
    by blast
  have "train lib c X y = (Inr accs, c1\<lparr>is_trained := True\<rparr>)"
    using assms(1) r by (simp add: train_def)
  moreover have "\<forall>a \<in> set (target_names c).
       map_of (models (c1\<lparr>is_trained := True\<rparr>)) a = Some (mdl a) \<and> map_of accs a = Some (acc a)"
    using m ac by simp
  ultimately show ?thesis
    by (intro exI [of _ accs] exI [of _ "c1\<lparr>is_trained := True\<rparr>"]) simp
qed

text \<open>
  C1: the sample count below which training is refused is the one of the train/test
  split, the first thing \<open>train\<close> does. When the split raises, \<open>train\<close> raises the same
  error and returns the controller as it was: models, feature names, target names and
  \<open>is_trained\<close>. So with a split that refuses every frame of fewer than \<open>min_samples\<close>
  rows (two, for scikit-learn with a test share of 0.2), every training request of fewer
  rows is an error that leaves the controller unchanged.
\<close>

theorem train_insufficient_data_unchanged:
  "(sk_train_test_split lib features_df targets_df = Inl e
      \<longrightarrow> train lib c features_df targets_df = (Inl e, c))
   \<and> ((\<forall>X y. df_rows X < min_samples \<longrightarrow> isl (sk_train_test_split lib X y)) \<and>
       df_rows features_df' < min_samples
      \<longrightarrow> (\<exists>e'. train lib c features_df' targets_df' = (Inl e', c)))"
proof (intro conjI impI)
  assume "sk_train_test_split lib features_df targets_df = Inl e"
  then show "train lib c features_df targets_df = (Inl e, c)"
    by (simp add: train_def)
next
  assume h: "(\<forall>X y. df_rows X < min_samples \<longrightarrow> isl (sk_train_test_split lib X y)) \<and>
       df_rows features_df' < min_samples"
  then have "isl (sk_train_test_split lib features_df' targets_df')"
    by blast
  then obtain e' where "sk_train_test_split lib features_df' targets_df' = Inl e'"
    by (auto simp: isl_def)
  then have "train lib c features_df' targets_df' = (Inl e', c)"
    by (simp add: train_def)
  then show "\<exists>e'. train lib c features_df' targets_df' = (Inl e', c)"
    by blast
qed

lemma stub_split_refuses_one_row:
  "df_rows X < 2 \<Longrightarrow> isl (stub_train_test_split X y)"
proof -
  assume "df_rows X < 2"
  then have "df_rows X - (df_rows X + 4) div 5 = 0"
    by arith
  then show ?thesis
    by (simp add: stub_train_test_split_def Let_def)
qed

theorem train_insufficient_data_unchanged_witness:
  "df_rows one_feature_row < 2 \<and>
   sk_train_test_split stub_sklearn one_feature_row one_target_row
     = Inl (ValueError ''the resulting train set will be empty'') \<and>
   train stub_sklearn trained_controller one_feature_row one_target_row
     = (Inl (ValueError ''the resulting train set will be empty''), trained_controller) \<and>
   (\<exists>e'. train stub_sklearn trained_controller one_feature_row one_target_row
           = (Inl e', trained_controller))"
proof -
  have n: "df_rows one_feature_row < 2"
    by (simp add: one_feature_row_def df_rows_def)
  have e: "sk_train_test_split stub_sklearn one_feature_row one_target_row
       = Inl (ValueError ''the resulting train set will be empty'')"
    by (simp add: stub_sklearn_def stub_train_test_split_def one_feature_row_def df_rows_def)
  have r: "\<forall>X y. df_rows X < 2 \<longrightarrow> isl (sk_train_test_split stub_sklearn X y)"
    using stub_split_refuses_one_row by (simp add: stub_sklearn_def)
  note T = train_insufficient_data_unchanged [of stub_sklearn one_feature_row one_target_row
      "ValueError ''the resulting train set will be empty''" trained_controller 2
      one_feature_row one_target_row]
  have a: "train stub_sklearn trained_controller one_feature_row one_target_row
     = (Inl (ValueError ''the resulting train set will be empty''), trained_controller)"
    using T e by blast
  have b: "\<exists>e'. train stub_sklearn trained_controller one_feature_row one_target_row
           = (Inl e', trained_controller)"
    using T r n by blast
  show ?thesis
    using n e a b by blast
qed









subsection \<open>The history buffers of the trend predictor\<close>

lemma update_history_max [simp]:
  "max_buffer_size (update_history p ts data) = max_buffer_size p"
proof (induction data arbitrary: p)
  case Nil
  then show ?case by simp
next
  case (Cons kv rest)
  obtain k v where kv: "kv = (k, v)" by (cases kv)
  show ?case
    by (cases "history_buffers p k") (simp_all add: kv Let_def Cons.IH)
qed

lemma update_history_bounded:
  assumes "\<forall>m buf. history_buffers p m = Some buf \<longrightarrow> int (length buf) \<le> max_buffer_size p"
  shows "\<forall>m buf. history_buffers (update_history p ts data) m = Some buf
           \<longrightarrow> int (length buf) \<le> max_buffer_size p"
  using assms
proof (induction data arbitrary: p)
  case Nil
  then show ?case by simp
next
  case (Cons kv rest)
  obtain k v where kv: "kv = (k, v)" by (cases kv)
  show ?case
  proof (cases "history_buffers p k")
    case None
    then have "update_history p ts (kv # rest) = update_history p ts rest"
      by (simp add: kv)
    then show ?thesis using Cons.IH [OF Cons.prems] by simp
  next
    case (Some buffer)
    define kept where "kept = (if int (length (buffer @ [(ts, v)])) > max_buffer_size p
                               then tl (buffer @ [(ts, v)]) else buffer @ [(ts, v)])"
    define p1 where "p1 = p\<lparr>history_buffers := (history_buffers p)(k \<mapsto> kept)\<rparr>"
    have old: "int (length buffer) \<le> max_buffer_size p"
      using Cons.prems Some by blast
    have len: "int (length kept) \<le> max_buffer_size p"
      using old by (simp add: kept_def)
    have mx: "max_buffer_size p1 = max_buffer_size p"
      by (simp add: p1_def)
    have inv1: "\<forall>m buf. history_buffers p1 m = Some buf \<longrightarrow> int (length buf) \<le> max_buffer_size p1"
    proof (intro allI impI)
      fix m buf
      assume b: "history_buffers p1 m = Some buf"
      show "int (length buf) \<le> max_buffer_size p1"
      proof (cases "m = k")
        case True
        then have "buf = kept" using b by (simp add: p1_def)
        then show ?thesis using len mx by simp
      next
        case False
        then have "history_buffers p m = Some buf" using b by (simp add: p1_def)
        then show ?thesis using Cons.prems mx by simp
      qed
    qed
    have step: "update_history p ts (kv # rest) = update_history p1 ts rest"
      using Some by (simp add: kv p1_def kept_def Let_def)
    show ?thesis
      using Cons.IH [OF inv1] unfolding step mx .
  qed
qed

lemma update_history_calls_bounded:
  assumes "\<forall>m buf. history_buffers p m = Some buf \<longrightarrow> int (length buf) \<le> max_buffer_size p"
  shows "max_buffer_size (update_history_calls p calls) = max_buffer_size p \<and>
         (\<forall>m buf. history_buffers (update_history_calls p calls) m = Some buf
           \<longrightarrow> int (length buf) \<le> max_buffer_size p)"
  using assms
proof (induction p calls rule: update_history_calls.induct)
  case (1 p)
  then show ?case by simp
next
  case (2 p ts data calls)
  have "\<forall>m buf. history_buffers (update_history p ts data) m = Some buf
           \<longrightarrow> int (length buf) \<le> max_buffer_size (update_history p ts data)"
    using update_history_bounded [OF "2.prems"] by simp
  from "2.IH" [OF this] show ?case by simp
qed

lemma update_history_absent:
  "map_of data m = None \<Longrightarrow>
   history_buffers (update_history p ts data) m = history_buffers p m"
proof (induction data arbitrary: p)
  case Nil
  then show ?case by simp
next
  case (Cons kv rest)
  obtain k v where kv: "kv = (k, v)" by (cases kv)
  have km: "k \<noteq> m" and r: "map_of rest m = None"
    using Cons.prems by (auto simp: kv split: if_splits)
  show ?case
  proof (cases "history_buffers p k")
    case None
    then show ?thesis using Cons.IH [OF r, of p] by (simp add: kv)
  next
    case (Some buffer)
    then show ?thesis
      using km by (simp add: kv Let_def Cons.IH [OF r])
  qed
qed

lemma update_history_effect:
  assumes "distinct (map fst data)"
  shows "history_buffers (update_history p ts data) m =
           (case history_buffers p m of
              None \<Rightarrow> None
            | Some buf \<Rightarrow>
                (case map_of data m of
                   None \<Rightarrow> Some buf
                 | Some v \<Rightarrow>
                     Some (if int (length (buf @ [(ts, v)])) > max_buffer_size p
                           then tl (buf @ [(ts, v)]) else buf @ [(ts, v)])))"
  using assms
proof (induction data arbitrary: p)
  case Nil
  then show ?case by (simp split: option.splits)
next
  case (Cons kv rest)
  obtain k v where kv: "kv = (k, v)" by (cases kv)
  have d: "distinct (map fst rest)" and nk: "map_of rest k = None"
    using Cons.prems by (auto simp: kv map_of_eq_None_iff)
  show ?case
  proof (cases "m = k")
    case False
    show ?thesis
    proof (cases "history_buffers p k")
      case None
      then show ?thesis
        using Cons.IH [OF d, of p] False unfolding kv by (simp split: option.splits)
    next
      case (Some buffer)
      then show ?thesis
        using False unfolding kv by (simp add: Let_def Cons.IH [OF d] split: option.splits)
    qed
  next
    case True
    show ?thesis
    proof (cases "history_buffers p k")
      case None
      then show ?thesis
        using True update_history_absent [OF nk, of p ts] unfolding kv by (simp split: option.splits)
    next
      case (Some buffer)
      then show ?thesis
        using True unfolding kv by (simp add: Let_def update_history_absent [OF nk] split: option.splits)
    qed
  qed
qed

lemma update_history_effect_none:
  "history_buffers p m = None \<Longrightarrow> history_buffers (update_history p ts data) m = None"
proof (induction data arbitrary: p)
  case Nil
  then show ?case by simp
next
  case (Cons kv rest)
  obtain k v where kv: "kv = (k, v)" by (cases kv)
  show ?case
  proof (cases "history_buffers p k")
    case None
    then show ?thesis using Cons.IH [OF Cons.prems] by (simp add: kv)
  next
    case (Some buffer)
    then have "k \<noteq> m" using Cons.prems by auto
    then show ?thesis
      using Some Cons.prems by (simp add: kv Let_def Cons.IH)
  qed
qed

lemma init_calls_bounded:
  assumes "history_buffers (update_history_calls trend_predictor_init calls) m = Some buf"
  shows "length buf \<le> 1440"
proof -
  let ?p = "trend_predictor_init :: 'a trend_predictor"
  have "\<forall>m buf. history_buffers ?p m = Some buf \<longrightarrow> int (length buf) \<le> max_buffer_size ?p"
    by (auto simp: trend_predictor_init_def split: if_splits)
  from update_history_calls_bounded [OF this, of calls] assms
  have "int (length buf) \<le> max_buffer_size ?p"
    by blast
  then show ?thesis
    by (simp add: trend_predictor_init_def)
qed

text \<open>
  C7: after any sequence of \<open>update_history\<close> calls on a fresh predictor, every history
  buffer holds at most 1440 pairs. One call, on a reading with distinct keys and capacity
  1440, appends one pair to the buffer of every metric of the reading that has a buffer
  and leaves the other buffers alone; a buffer that is full loses its oldest pair and
  keeps the rest in order before the new one. A name without a buffer gets none.
\<close>

theorem history_buffers_bounded_fifo:
  "(history_buffers (update_history_calls trend_predictor_init calls) m = Some buf
      \<longrightarrow> length buf \<le> 1440)
   \<and> (distinct (map fst data) \<and> max_buffer_size p = 1440 \<and> history_buffers p m' = Some old
      \<longrightarrow> history_buffers (update_history p ts data) m' =
            Some (case map_of data m' of
                    None \<Rightarrow> old
                  | Some v \<Rightarrow> if length old < 1440 then old @ [(ts, v)]
                              else tl old @ [(ts, v)]))
   \<and> (history_buffers p m' = None \<longrightarrow> history_buffers (update_history p ts data) m' = None)"
proof (intro conjI impI)
  assume "history_buffers (update_history_calls trend_predictor_init calls) m = Some buf"
  then show "length buf \<le> 1440"
    by (rule init_calls_bounded)
next
  assume h: "distinct (map fst data) \<and> max_buffer_size p = 1440 \<and> history_buffers p m' = Some old"
  then have d: "distinct (map fst data)" by simp
  show "history_buffers (update_history p ts data) m' =
            Some (case map_of data m' of
                    None \<Rightarrow> old
                  | Some v \<Rightarrow> if length old < 1440 then old @ [(ts, v)]
                              else tl old @ [(ts, v)])"
    using h by (cases old) (auto simp: update_history_effect [OF d] split: option.splits)
next
  assume "history_buffers p m' = None"
  then show "history_buffers (update_history p ts data) m' = None"
    using update_history_effect_none by blast
qed

theorem history_buffers_bounded_fifo_witness:
  "history_buffers (update_history_calls (trend_predictor_init :: real trend_predictor)
       [(100, [(''temperature'', 26.5), (''pressure'', 1013)])]) ''temperature'' = Some [(100, 26.5)] \<and>
   length [(100 :: real, 26.5 :: real)] \<le> 1440 \<and>
   history_buffers
     (update_history
        ((trend_predictor_init :: real trend_predictor)
           \<lparr>history_buffers := [''temperature'' \<mapsto> replicate 1440 (0, 20)]\<rparr>)
        100 [(''temperature'', 26.5), (''pressure'', 1013)]) ''temperature''
     = Some (tl (replicate 1440 (0, 20)) @ [(100, 26.5)]) \<and>
   history_buffers
     (update_history (trend_predictor_init :: real trend_predictor)
        100 [(''temperature'', 26.5), (''pressure'', 1013)]) ''pressure'' = None"
proof -
  let ?p = "trend_predictor_init :: real trend_predictor"
  let ?full = "?p\<lparr>history_buffers := [''temperature'' \<mapsto> replicate 1440 (0, 20)]\<rparr>"
  let ?data = "[(''temperature'', 26.5 :: real), (''pressure'', 1013)]"
  have a: "history_buffers (update_history_calls ?p [(100, ?data)]) ''temperature''
             = Some [(100, 26.5)]"
    by (simp add: trend_predictor_init_def Let_def)
  have b: "distinct (map fst ?data) \<and> max_buffer_size ?full = 1440 \<and>
           history_buffers ?full ''temperature'' = Some (replicate 1440 (0, 20))"
    by (simp add: trend_predictor_init_def)
  have c: "history_buffers ?p ''pressure'' = None"
    by (simp add: trend_predictor_init_def)
  show ?thesis
    using a b c
      history_buffers_bounded_fifo [of "[(100, ?data)]" "''temperature''" "[(100, 26.5)]"
        ?data ?full "''temperature''" "replicate 1440 (0, 20)" 100]
      history_buffers_bounded_fifo [of "[(100, ?data)]" "''temperature''" "[(100, 26.5)]"
        ?data ?p "''pressure''" "[]" 100]
    by simp
qed

subsection \<open>Anomaly detection\<close>

lemma detect_anomalies_loop_spec:
  assumes "fst ` set cd \<inter> fst ` set preds
             \<subseteq> {''temperature'', ''humidity'', ''soil_moisture'', ''light_intensity''}"
  shows "detect_anomalies_loop cd preds acc = acc @ spec_detect_anomalies cd preds"
  using assms
proof (induction cd arbitrary: acc)
  case Nil
  then show ?case by (simp add: spec_detect_anomalies_def)
next
  case (Cons mv rest)
  obtain m v where mv: "mv = (m, v)" by (cases mv)
  have r: "fst ` set rest \<inter> fst ` set preds
             \<subseteq> {''temperature'', ''humidity'', ''soil_moisture'', ''light_intensity''}"
    using Cons.prems by auto
  note IH = Cons.IH [OF r]
  have four_if: "m \<in> fst ` set preds \<Longrightarrow>
      m \<in> {''temperature'', ''humidity'', ''soil_moisture'', ''light_intensity''}"
    using Cons.prems mv by auto
  have tail: "spec_detect_anomalies ((m, v) # rest) preds =
      (case map_of preds m of Some (nearest # _) \<Rightarrow> spec_anomaly m v (val nearest) | _ \<Rightarrow> [])
        @ spec_detect_anomalies rest preds"
    by (simp add: spec_detect_anomalies_def)
  show ?case
  proof (cases "map_of preds m")
    case None
    then show ?thesis
      unfolding mv tail by (simp add: IH)
  next
    case (Some pts)
    then have "m \<in> fst ` set preds"
      by (metis domI dom_map_of_conv_image_fst)
    then have four: "m \<in> {''temperature'', ''humidity'', ''soil_moisture'', ''light_intensity''}"
      by (rule four_if)
    show ?thesis
    proof (cases pts)
      case Nil
      then show ?thesis
        unfolding mv tail using Some by (simp add: IH)
    next
      case (Cons first_pred more)
      have thr: "spec_threshold m v = Some
                  (if m = ''temperature'' then max 8.0 (\<bar>v\<bar> * 0.15)
                   else if m = ''light_intensity'' then max 35.0 (\<bar>v\<bar> * 0.40)
                   else max 30.0 (\<bar>v\<bar> * 0.40))"
        using four by (auto simp: spec_threshold_def mult.commute)
      show ?thesis
        unfolding mv tail using Some Cons
        by (simp add: Let_def IH spec_anomaly_def thr mult.commute)
    qed
  qed
qed

text \<open>
  C4: when the metrics that the reading and the forecast share are among temperature,
  humidity, soil moisture and light intensity, \<open>detect_anomalies\<close> returns what the
  specification words: for every metric of the reading, in order, whose forecast is not
  empty, the predicted value is that of the first point, the deviation is the distance of
  the live value from it, the threshold is \<open>max 8 (0.15 |live|)\<close> for temperature,
  \<open>max 35 (0.40 |live|)\<close> for light intensity and \<open>max 30 (0.40 |live|)\<close> for humidity
  and soil moisture, a record is emitted exactly when the deviation exceeds the
  threshold, and its severity is \<open>high\<close> exactly when the deviation exceeds twice the
  threshold and \<open>medium\<close> otherwise.
\<close>

theorem detect_anomalies_meets_spec:
  "fst ` set current_data \<inter> fst ` set predictions
       \<subseteq> {''temperature'', ''humidity'', ''soil_moisture'', ''light_intensity''}
   \<longrightarrow> detect_anomalies current_data predictions = spec_detect_anomalies current_data predictions"
  using detect_anomalies_loop_spec [of current_data predictions "[]"]
  by (simp add: detect_anomalies_def)

theorem detect_anomalies_meets_spec_witness:
  "detect_anomalies [(''temperature'', 40), (''humidity'', 50), (''light_intensity'', 99)]
     [(''temperature'', [\<lparr>time = ''12:30'', minutes_ahead = 30, val = 26, confidence = 1 / 2\<rparr>]),
      (''light_intensity'', [\<lparr>time = ''12:30'', minutes_ahead = 30, val = 10, confidence = 1 / 2\<rparr>])]
   = spec_detect_anomalies [(''temperature'', 40), (''humidity'', 50), (''light_intensity'', 99)]
     [(''temperature'', [\<lparr>time = ''12:30'', minutes_ahead = 30, val = 26, confidence = 1 / 2\<rparr>]),
      (''light_intensity'', [\<lparr>time = ''12:30'', minutes_ahead = 30, val = 10, confidence = 1 / 2\<rparr>])]
   \<and> spec_detect_anomalies [(''temperature'', 40), (''humidity'', 50), (''light_intensity'', 99)]
     [(''temperature'', [\<lparr>time = ''12:30'', minutes_ahead = 30, val = 26, confidence = 1 / 2\<rparr>]),
      (''light_intensity'', [\<lparr>time = ''12:30'', minutes_ahead = 30, val = 10, confidence = 1 / 2\<rparr>])]
   = [\<lparr>metric = ''temperature'', current_value = 40, predicted_value = 26, deviation = 14,
        severity = ''medium''\<rparr>,
      \<lparr>metric = ''light_intensity'', current_value = 99, predicted_value = 10, deviation = 89,
        severity = ''high''\<rparr>]"
proof -
  let ?cd = "[(''temperature'', 40 :: real), (''humidity'', 50), (''light_intensity'', 99)]"
  let ?pr = "[(''temperature'', [\<lparr>time = ''12:30'', minutes_ahead = 30, val = 26, confidence = 1 / 2\<rparr>]),
      (''light_intensity'', [\<lparr>time = ''12:30'', minutes_ahead = 30, val = 10, confidence = 1 / 2\<rparr>])]"
  have h: "fst ` set ?cd \<inter> fst ` set ?pr
       \<subseteq> {''temperature'', ''humidity'', ''soil_moisture'', ''light_intensity''}"
    by simp
  have v: "spec_detect_anomalies ?cd ?pr
   = [\<lparr>metric = ''temperature'', current_value = 40, predicted_value = 26, deviation = 14,
        severity = ''medium''\<rparr>,
      \<lparr>metric = ''light_intensity'', current_value = 99, predicted_value = 10, deviation = 89,
        severity = ''high''\<rparr>]"
    by (simp add: spec_detect_anomalies_def spec_anomaly_def spec_threshold_def)
  show ?thesis
    using h v detect_anomalies_meets_spec [of ?cd ?pr] by simp
qed

subsection \<open>Forecast confidence\<close>

lemma set_update_subset: "set (AList.update k v al) \<subseteq> insert (k, v) (set al)"
  by (induction al) auto

lemma predict_future_loop_entries:
  assumes "predict_future_loop rp clock p h cd preds = Inr fc"
    and "\<forall>(m, pts) \<in> set preds. Q pts"
    and "\<And>m yp. Q (map (trained_point clock m)
                     (zip (future_timestamps h) (zip yp (confidences h))))"
  shows "\<forall>(m, pts) \<in> set fc. Q pts"
  using assms(1,2)
proof (induction cd arbitrary: preds)
  case Nil
  then show ?case by simp
next
  case (Cons mv rest)
  obtain m v where mv: "mv = (m, v)" by (cases mv)
  show ?case
  proof (cases "map_of (trend_models p) m")
    case None
    then have "predict_future_loop rp clock p h rest preds = Inr fc"
      using Cons.prems(1) by (simp add: mv)
    then show ?thesis using Cons.IH Cons.prems(2) by blast
  next
    case (Some model)
    show ?thesis
    proof (cases "rp model (future_timestamps h)")
      case (Inl e)
      then show ?thesis using Cons.prems(1) Some by (simp add: mv)
    next
      case (Inr y_pred)
      let ?pts = "map (trained_point clock m) (zip (future_timestamps h) (zip y_pred (confidences h)))"
      have run: "predict_future_loop rp clock p h rest (AList.update m ?pts preds) = Inr fc"
        using Cons.prems(1) Some Inr by (simp add: mv)
      have "\<forall>(m, pts) \<in> set (AList.update m ?pts preds). Q pts"
        using set_update_subset [of m ?pts preds] Cons.prems(2) assms(3) [of m y_pred]
        by auto
      with run show ?thesis using Cons.IH by blast
    qed
  qed
qed

lemma predict_simple_trends_loop_entries:
  assumes "\<forall>(m, pts) \<in> set preds. Q pts"
    and "\<And>m v tr. Q (map (simple_point clock noise h m v tr)
                       [1..(h * 60) div FORECAST_INTERVAL_MINUTES])"
  shows "\<forall>(m, pts) \<in> set (predict_simple_trends_loop clock noise h cd preds). Q pts"
  using assms(1)
proof (induction cd arbitrary: preds)
  case Nil
  then show ?case by simp
next
  case (Cons mv rest)
  obtain m v where mv: "mv = (m, v)" by (cases mv)
  show ?case
  proof (cases "map_of trends m")
    case None
    then show ?thesis using Cons.IH [OF Cons.prems] by (simp add: mv)
  next
    case (Some tr)
    let ?pts = "map (simple_point clock noise h m v tr) [1..(h * 60) div FORECAST_INTERVAL_MINUTES]"
    have "\<forall>(m, pts) \<in> set (AList.update m ?pts preds). Q pts"
      using set_update_subset [of m ?pts preds] Cons.prems assms(2) [of m v tr]
      by auto
    from Cons.IH [OF this] show ?thesis using Some by (simp add: mv)
  qed
qed

lemma length_future_timestamps: "length (future_timestamps h) = nat (2 * h)"
  by (simp add: future_timestamps_def FORECAST_INTERVAL_MINUTES_def)

lemma nth_future_timestamps:
  "k < length (future_timestamps h) \<Longrightarrow> future_timestamps h ! k = (int k + 1) * 30"
  by (simp add: future_timestamps_def FORECAST_INTERVAL_MINUTES_def)

lemma trained_points_nth:
  assumes "k < length (map (trained_point clock m)
                         (zip (future_timestamps h) (zip yp (confidences h))))"
  shows "0 < h \<and>
         minutes_ahead (map (trained_point clock m)
                          (zip (future_timestamps h) (zip yp (confidences h))) ! k)
           = (int k + 1) * 30 \<and>
         confidence (map (trained_point clock m)
                       (zip (future_timestamps h) (zip yp (confidences h))) ! k)
           = exp (- real_of_int ((int k + 1) * 30) / real_of_int (h * 60))"
proof -
  have k: "k < length (future_timestamps h)" "k < length yp" "k < length (confidences h)"
    using assms by simp_all
  then have "0 < nat (2 * h)" by (simp add: length_future_timestamps)
  then have h: "0 < h" by simp
  have c: "confidences h ! k = exp (- real_of_int ((int k + 1) * 30) / real_of_int (h * 60))"
    unfolding confidences_def by (simp only: nth_map [OF k(1)] nth_future_timestamps [OF k(1)])
  show ?thesis
    using k h c by (simp add: trained_point_def nth_future_timestamps)
qed

lemma simple_points_nth:
  assumes "k < length (map (simple_point clock noise h m v tr)
                         [1..(h * 60) div FORECAST_INTERVAL_MINUTES])"
  shows "0 < h \<and>
         minutes_ahead (map (simple_point clock noise h m v tr)
                          [1..(h * 60) div FORECAST_INTERVAL_MINUTES] ! k) = (int k + 1) * 30 \<and>
         confidence (map (simple_point clock noise h m v tr)
                       [1..(h * 60) div FORECAST_INTERVAL_MINUTES] ! k)
           = max 0.3 (1 - (real_of_int ((int k + 1) * 30) / 60) / real_of_int h)"
proof -
  have k: "int k < 2 * h"
    using assms by (simp add: FORECAST_INTERVAL_MINUTES_def)
  then have h: "0 < h" by simp
  have n: "[1..(h * 60) div FORECAST_INTERVAL_MINUTES] ! k = 1 + int k"
    using k by (simp add: FORECAST_INTERVAL_MINUTES_def)
  show ?thesis
    using assms h n
    by (simp add: simple_point_def Let_def FORECAST_INTERVAL_MINUTES_def add.commute)
qed

lemma forecast_trained_entries:
  assumes "predict_future_loop rp clock p h cd [] = Inr fc" and "(m, pts) \<in> set fc"
    and "k < length pts"
  shows "0 < h \<and> minutes_ahead (pts ! k) = (int k + 1) * 30 \<and>
         confidence (pts ! k) = exp (- real_of_int ((int k + 1) * 30) / real_of_int (h * 60))"
proof -
  have "\<forall>(m, pts) \<in> set fc. \<forall>k < length pts.
          0 < h \<and> minutes_ahead (pts ! k) = (int k + 1) * 30 \<and>
          confidence (pts ! k) = exp (- real_of_int ((int k + 1) * 30) / real_of_int (h * 60))"
    by (rule predict_future_loop_entries [OF assms(1)]) (simp, use trained_points_nth in blast)
  then show ?thesis using assms(2,3) by blast
qed

lemma forecast_simple_entries:
  assumes "(m, pts) \<in> set (predict_simple_trends clock noise cd h)" and "k < length pts"
  shows "0 < h \<and> minutes_ahead (pts ! k) = (int k + 1) * 30 \<and>
         confidence (pts ! k) = max 0.3 (1 - (real_of_int ((int k + 1) * 30) / 60) / real_of_int h)"
proof -
  have "\<forall>(m, pts) \<in> set (predict_simple_trends_loop clock noise h cd []). \<forall>k < length pts.
          0 < h \<and> minutes_ahead (pts ! k) = (int k + 1) * 30 \<and>
          confidence (pts ! k) = max 0.3 (1 - (real_of_int ((int k + 1) * 30) / 60) / real_of_int h)"
    by (rule predict_simple_trends_loop_entries) (simp, use simple_points_nth in blast)
  then show ?thesis using assms by (auto simp: predict_simple_trends_def)
qed

lemma exp_conf_strict:
  assumes "0 < h" and "i < j"
  shows "exp (- real_of_int ((int j + 1) * 30) / real_of_int (h * 60))
           < exp (- real_of_int ((int i + 1) * 30) / real_of_int (h * 60))"
proof -
  have "real_of_int ((int i + 1) * 30) < real_of_int ((int j + 1) * 30)"
    using assms(2) by simp
  moreover have "0 < real_of_int (h * 60)" using assms(1) by simp
  ultimately have "- real_of_int ((int j + 1) * 30) / real_of_int (h * 60)
                     < - real_of_int ((int i + 1) * 30) / real_of_int (h * 60)"
    by (intro divide_strict_right_mono) simp_all
  then show ?thesis by (simp only: exp_less_cancel_iff)
qed

lemma exp_conf_unit:
  assumes "0 < h"
  shows "0 \<le> exp (- real_of_int ((int k + 1) * 30) / real_of_int (h * 60)) \<and>
         exp (- real_of_int ((int k + 1) * 30) / real_of_int (h * 60)) \<le> 1"
proof -
  have "0 < real_of_int (h * 60)" using assms by simp
  moreover have "- real_of_int ((int k + 1) * 30) \<le> 0" by simp
  ultimately have "- real_of_int ((int k + 1) * 30) / real_of_int (h * 60) \<le> 0"
    by (intro divide_nonpos_pos) simp_all
  then have "exp (- real_of_int ((int k + 1) * 30) / real_of_int (h * 60)) \<le> 1"
    by (simp only: exp_le_one_iff)
  then show ?thesis by simp
qed

lemma simple_conf_mono:
  assumes "0 < h" and "i < j"
  shows "max 0.3 (1 - (real_of_int ((int j + 1) * 30) / 60) / real_of_int h)
           \<le> max 0.3 (1 - (real_of_int ((int i + 1) * 30) / 60) / real_of_int h)"
proof -
  have "real_of_int ((int i + 1) * 30) / 60 \<le> real_of_int ((int j + 1) * 30) / 60"
    using assms(2) by simp
  moreover have "0 < real_of_int h" using assms(1) by simp
  ultimately have "(real_of_int ((int i + 1) * 30) / 60) / real_of_int h
                     \<le> (real_of_int ((int j + 1) * 30) / 60) / real_of_int h"
    by (intro divide_right_mono) simp_all
  then show ?thesis by (intro max.mono) simp_all
qed

lemma simple_conf_unit:
  assumes "0 < h"
  shows "0 \<le> max 0.3 (1 - (real_of_int ((int k + 1) * 30) / 60) / real_of_int h) \<and>
         max 0.3 (1 - (real_of_int ((int k + 1) * 30) / 60) / real_of_int h) \<le> 1"
proof -
  have "0 \<le> real_of_int ((int k + 1) * 30) / 60" by simp
  moreover have "0 < real_of_int h" using assms by simp
  ultimately have "0 \<le> (real_of_int ((int k + 1) * 30) / 60) / real_of_int h"
    by (rule divide_nonneg_pos)
  moreover have "0 \<le> x \<Longrightarrow> 0 \<le> max 0.3 (1 - x) \<and> max 0.3 (1 - x) \<le> 1" for x :: real
    by (auto simp: max_def)
  ultimately show ?thesis by blast
qed

text \<open>
  C5: in every forecast \<open>predict_future\<close> returns, trained or not, the points of a metric
  come with increasing \<open>minutes_ahead\<close> and non-increasing confidence. With trained
  models the point of index \<open>k\<close> is \<open>(k + 1) * 30\<close> minutes ahead with confidence
  \<open>exp (- (k + 1) * 30 / (hours_ahead * 60))\<close>, and the confidence is strictly decreasing.
\<close>

theorem forecast_confidence_decreasing:
  "(predict_future ridge_predict clock noise p current_data hours_ahead = Inr forecast \<and>
    (m, pts) \<in> set forecast \<and> i < j \<and> j < length pts
      \<longrightarrow> minutes_ahead (pts ! i) < minutes_ahead (pts ! j) \<and>
          confidence (pts ! j) \<le> confidence (pts ! i) \<and>
          (trend_is_trained p \<longrightarrow> confidence (pts ! j) < confidence (pts ! i)))
   \<and> (predict_future ridge_predict clock noise p current_data hours_ahead = Inr forecast \<and>
      trend_is_trained p \<and> (m, pts) \<in> set forecast \<and> k < length pts
      \<longrightarrow> minutes_ahead (pts ! k) = (int k + 1) * FORECAST_INTERVAL_MINUTES \<and>
          confidence (pts ! k) =
            exp (- real_of_int ((int k + 1) * FORECAST_INTERVAL_MINUTES)
                   / real_of_int (hours_ahead * 60)))"
proof (intro conjI impI)
  assume a: "predict_future ridge_predict clock noise p current_data hours_ahead = Inr forecast \<and>
      trend_is_trained p \<and> (m, pts) \<in> set forecast \<and> k < length pts"
  then have tr: "trend_is_trained p"
    and pf: "predict_future ridge_predict clock noise p current_data hours_ahead = Inr forecast"
    by simp_all
  have "predict_future_loop ridge_predict clock p hours_ahead current_data [] = Inr forecast"
    using pf tr by (simp add: predict_future_def)
  from forecast_trained_entries [OF this, of m pts k] a
  show "minutes_ahead (pts ! k) = (int k + 1) * FORECAST_INTERVAL_MINUTES"
    and "confidence (pts ! k) =
            exp (- real_of_int ((int k + 1) * FORECAST_INTERVAL_MINUTES)
                   / real_of_int (hours_ahead * 60))"
    by (simp_all only: FORECAST_INTERVAL_MINUTES_def)
next
  assume a: "predict_future ridge_predict clock noise p current_data hours_ahead = Inr forecast \<and>
    (m, pts) \<in> set forecast \<and> i < j \<and> j < length pts"
  then have ij: "i < j" "j < length pts" "i < length pts" and mem: "(m, pts) \<in> set forecast"
    and pf: "predict_future ridge_predict clock noise p current_data hours_ahead = Inr forecast"
    by simp_all
  have both: "minutes_ahead (pts ! i) < minutes_ahead (pts ! j) \<and>
          confidence (pts ! j) \<le> confidence (pts ! i) \<and>
          (trend_is_trained p \<longrightarrow> confidence (pts ! j) < confidence (pts ! i))"
  proof (cases "trend_is_trained p")
    case True
    with pf have run: "predict_future_loop ridge_predict clock p hours_ahead current_data [] = Inr forecast"
      by (simp add: predict_future_def)
    have ei: "0 < hours_ahead \<and> minutes_ahead (pts ! i) = (int i + 1) * 30 \<and>
         confidence (pts ! i) = exp (- real_of_int ((int i + 1) * 30) / real_of_int (hours_ahead * 60))"
      by (rule forecast_trained_entries [OF run mem ij(3)])
    have ej: "0 < hours_ahead \<and> minutes_ahead (pts ! j) = (int j + 1) * 30 \<and>
         confidence (pts ! j) = exp (- real_of_int ((int j + 1) * 30) / real_of_int (hours_ahead * 60))"
      by (rule forecast_trained_entries [OF run mem ij(2)])
    have "confidence (pts ! j) < confidence (pts ! i)"
      using exp_conf_strict [of hours_ahead i j] ei ej ij(1) by simp
    moreover have "minutes_ahead (pts ! i) < minutes_ahead (pts ! j)"
      using ei ej ij(1) by simp
    ultimately show ?thesis by simp
  next
    case False
    with pf have fc: "forecast = predict_simple_trends clock noise current_data hours_ahead"
      by (simp add: predict_future_def)
    have ei: "0 < hours_ahead \<and> minutes_ahead (pts ! i) = (int i + 1) * 30 \<and>
         confidence (pts ! i) =
           max 0.3 (1 - (real_of_int ((int i + 1) * 30) / 60) / real_of_int hours_ahead)"
      using forecast_simple_entries [of m pts clock noise current_data hours_ahead i] mem ij(3)
      unfolding fc by blast
    have ej: "0 < hours_ahead \<and> minutes_ahead (pts ! j) = (int j + 1) * 30 \<and>
         confidence (pts ! j) =
           max 0.3 (1 - (real_of_int ((int j + 1) * 30) / 60) / real_of_int hours_ahead)"
      using forecast_simple_entries [of m pts clock noise current_data hours_ahead j] mem ij(2)
      unfolding fc by blast
    have "confidence (pts ! j) \<le> confidence (pts ! i)"
      using simple_conf_mono [of hours_ahead i j] ei ej ij(1) by simp
    moreover have "minutes_ahead (pts ! i) < minutes_ahead (pts ! j)"
      using ei ej ij(1) by simp
    ultimately show ?thesis using False by simp
  qed
  from both show "minutes_ahead (pts ! i) < minutes_ahead (pts ! j)" by simp
  from both show "confidence (pts ! j) \<le> confidence (pts ! i)" by simp
  { assume "trend_is_trained p"
    with both show "confidence (pts ! j) < confidence (pts ! i)" by simp }
qed

lemma future_timestamps_one: "future_timestamps 1 = [30, 60]"
  by (simp add: future_timestamps_def FORECAST_INTERVAL_MINUTES_def upto_rec1)

lemma trained_forecast_one:
  "predict_future stub_ridge_predict noon no_noise trained_predictor [(''temperature'', 25)] 1 =
     Inr [(''temperature'',
           map (trained_point noon ''temperature'') (zip [30, 60] (zip [26, 26] (confidences 1))))]"
  by (simp add: predict_future_def trained_predictor_def stub_ridge_predict_def
        future_timestamps_one)

lemma length_confidences_one: "length (confidences 1) = 2"
  by (simp add: confidences_def future_timestamps_one)

lemma simple_forecast_two:
  "predict_future stub_ridge_predict noon no_noise
       (trend_predictor_init :: real trend_predictor) [(''temperature'', 25)] 2 =
     Inr [(''temperature'',
           map (simple_point noon no_noise 2 ''temperature'' 25 0.5) [1, 2, 3, 4])]"
  by (simp add: predict_future_def trend_predictor_init_def predict_simple_trends_def
        trends_def FORECAST_INTERVAL_MINUTES_def upto_rec1)

theorem forecast_confidence_decreasing_witness:
  "(\<exists>forecast pts.
      predict_future stub_ridge_predict noon no_noise trained_predictor [(''temperature'', 25)] 1
        = Inr forecast \<and>
      trend_is_trained trained_predictor \<and> (''temperature'', pts) \<in> set forecast \<and>
      length pts = 2 \<and>
      minutes_ahead (pts ! 0) < minutes_ahead (pts ! 1) \<and>
      confidence (pts ! 1) < confidence (pts ! 0) \<and>
      minutes_ahead (pts ! 1) = 60 \<and> confidence (pts ! 1) = exp (- 1))
   \<and> (\<exists>forecast pts.
      predict_future stub_ridge_predict noon no_noise
        (trend_predictor_init :: real trend_predictor) [(''temperature'', 25)] 2 = Inr forecast \<and>
      (''temperature'', pts) \<in> set forecast \<and> length pts = 4 \<and>
      minutes_ahead (pts ! 2) < minutes_ahead (pts ! 3) \<and>
      confidence (pts ! 3) \<le> confidence (pts ! 2))"
proof -
  let ?pts = "map (trained_point noon ''temperature'') (zip [30, 60] (zip [26, 26] (confidences 1)))"
  let ?fc = "[(''temperature'', ?pts)]"
  let ?spts = "map (simple_point noon no_noise 2 ''temperature'' 25 0.5) [1, 2, 3, 4]"
  let ?sfc = "[(''temperature'', ?spts)]"
  have len: "length ?pts = 2"
    by (simp add: length_confidences_one)
  have tr: "trend_is_trained trained_predictor"
    by (simp add: trained_predictor_def)
  have slen: "length ?spts = 4"
    by simp
  note T1 = forecast_confidence_decreasing [of stub_ridge_predict noon no_noise trained_predictor
        "[(''temperature'', 25)]" 1 ?fc "''temperature''" ?pts 0 1 1]
  note T2 = forecast_confidence_decreasing [of stub_ridge_predict noon no_noise
        "trend_predictor_init :: real trend_predictor"
        "[(''temperature'', 25)]" 2 ?sfc "''temperature''" ?spts 2 3 0]
  have h1: "predict_future stub_ridge_predict noon no_noise trained_predictor
              [(''temperature'', 25)] 1 = Inr ?fc \<and>
            (''temperature'', ?pts) \<in> set ?fc \<and> (0 :: nat) < 1 \<and> 1 < length ?pts"
    using trained_forecast_one len by simp
  have h2: "predict_future stub_ridge_predict noon no_noise trained_predictor
              [(''temperature'', 25)] 1 = Inr ?fc \<and>
            trend_is_trained trained_predictor \<and>
            (''temperature'', ?pts) \<in> set ?fc \<and> 1 < length ?pts"
    using trained_forecast_one len tr by simp
  have h3: "predict_future stub_ridge_predict noon no_noise
              (trend_predictor_init :: real trend_predictor) [(''temperature'', 25)] 2 = Inr ?sfc \<and>
            (''temperature'', ?spts) \<in> set ?sfc \<and> (2 :: nat) < 3 \<and> 3 < length ?spts"
    using simple_forecast_two by simp
  have a: "minutes_ahead (?pts ! 0) < minutes_ahead (?pts ! 1) \<and>
           confidence (?pts ! 1) < confidence (?pts ! 0)"
    using T1 h1 tr by blast
  have e1: "(int 1 + 1) * FORECAST_INTERVAL_MINUTES = 60"
    by (simp add: FORECAST_INTERVAL_MINUTES_def)
  have e2: "exp (- real_of_int 60 / real_of_int (1 * 60)) = exp (- 1)"
    by simp
  have "minutes_ahead (?pts ! 1) = (int 1 + 1) * FORECAST_INTERVAL_MINUTES \<and>
        confidence (?pts ! 1) =
          exp (- real_of_int ((int 1 + 1) * FORECAST_INTERVAL_MINUTES) / real_of_int (1 * 60))"
    using T1 h2 by blast
  then have b: "minutes_ahead (?pts ! 1) = 60 \<and> confidence (?pts ! 1) = exp (- 1)"
    unfolding e1 e2 .
  have c: "minutes_ahead (?spts ! 2) < minutes_ahead (?spts ! 3) \<and>
           confidence (?spts ! 3) \<le> confidence (?spts ! 2)"
    using T2 h3 by blast
  show ?thesis
  proof (intro conjI)
    show "\<exists>forecast pts.
      predict_future stub_ridge_predict noon no_noise trained_predictor [(''temperature'', 25)] 1
        = Inr forecast \<and>
      trend_is_trained trained_predictor \<and> (''temperature'', pts) \<in> set forecast \<and>
      length pts = 2 \<and>
      minutes_ahead (pts ! 0) < minutes_ahead (pts ! 1) \<and>
      confidence (pts ! 1) < confidence (pts ! 0) \<and>
      minutes_ahead (pts ! 1) = 60 \<and> confidence (pts ! 1) = exp (- 1)"
      using h2 len a b
      by (intro exI [of _ ?fc] exI [of _ ?pts]) blast
    show "\<exists>forecast pts.
      predict_future stub_ridge_predict noon no_noise
        (trend_predictor_init :: real trend_predictor) [(''temperature'', 25)] 2 = Inr forecast \<and>
      (''temperature'', pts) \<in> set forecast \<and> length pts = 4 \<and>
      minutes_ahead (pts ! 2) < minutes_ahead (pts ! 3) \<and>
      confidence (pts ! 3) \<le> confidence (pts ! 2)"
      using h3 slen c
      by (intro exI [of _ ?sfc] exI [of _ ?spts]) blast
  qed
qed

subsection \<open>Confidence values\<close>

lemma argmax_from_bound:
  "best < i \<Longrightarrow> argmax_from xs i best bv < i + length xs"
proof (induction xs arbitrary: i best bv)
  case Nil
  then show ?case by simp
next
  case (Cons x xs)
  have a: "argmax_from xs (Suc i) i x < Suc i + length xs"
    by (rule Cons.IH) simp
  have b: "argmax_from xs (Suc i) best bv < Suc i + length xs"
    by (rule Cons.IH) (use Cons.prems in simp)
  show ?case using a b by simp
qed

lemma argmax_in_range: "argmax xs = Inr k \<Longrightarrow> k < length xs"
  using argmax_from_bound [of 0 1]
  by (cases xs) (auto simp: argmax_def)

lemma predict_with_confidence_loop_unit:
  assumes "predict_with_confidence_loop lib X ms preds = Inr r"
    and "\<forall>(a, m) \<in> set ms. \<forall>rows. sk_predict_proba lib m X = Inr rows
            \<longrightarrow> (\<forall>row \<in> set rows. \<forall>q \<in> set row. 0 \<le> q \<and> q \<le> 1)"
    and "\<forall>(a, b, cf) \<in> set preds. 0 \<le> cf \<and> cf \<le> 1"
  shows "\<forall>(a, b, cf) \<in> set r. 0 \<le> cf \<and> cf \<le> 1"
  using assms
proof (induction ms arbitrary: preds)
  case Nil
  then show ?case by simp
next
  case (Cons am ms)
  obtain a m where am: "am = (a, m)" by (cases am)
  have rest: "\<forall>(a, m) \<in> set ms. \<forall>rows. sk_predict_proba lib m X = Inr rows
            \<longrightarrow> (\<forall>row \<in> set rows. \<forall>q \<in> set row. 0 \<le> q \<and> q \<le> 1)"
    using Cons.prems(2) by simp
  have here: "\<forall>rows. sk_predict_proba lib m X = Inr rows
            \<longrightarrow> (\<forall>row \<in> set rows. \<forall>q \<in> set row. 0 \<le> q \<and> q \<le> 1)"
    using Cons.prems(2) by (simp add: am)
  from Cons.prems(1) obtain pred_proba more k where
    pp: "sk_predict_proba lib m X = Inr (pred_proba # more)" and k: "argmax pred_proba = Inr k"
    and run: "predict_with_confidence_loop lib X ms
                (AList.update a (k \<noteq> 0, pred_proba ! k) preds) = Inr r"
    by (auto simp: am split: sum.splits list.splits)
  have "pred_proba ! k \<in> set pred_proba"
    using argmax_in_range [OF k] by simp
  then have "0 \<le> pred_proba ! k \<and> pred_proba ! k \<le> 1"
    using here pp by auto
  then have "\<forall>(a, b, cf) \<in> set (AList.update a (k \<noteq> 0, pred_proba ! k) preds). 0 \<le> cf \<and> cf \<le> 1"
    using set_update_subset [of a "(k \<noteq> 0, pred_proba ! k)" preds] Cons.prems(3) by auto
  from Cons.IH [OF run rest this] show ?case .
qed

text \<open>
  C8: every confidence \<open>predict_with_confidence\<close> returns lies in \<open>[0, 1]\<close>, given that
  the entries of the probability vectors of the classifiers do; and the confidence of
  every point of every forecast \<open>predict_future\<close> returns, trained or not, lies in
  \<open>[0, 1]\<close>.
\<close>

theorem confidence_in_unit_interval:
  "(predict_with_confidence lib c sd = Inr r \<and>
    (\<forall>(a, m) \<in> set (models c). \<forall>rows. sk_predict_proba lib m (input_frame c sd) = Inr rows
        \<longrightarrow> (\<forall>row \<in> set rows. \<forall>q \<in> set row. 0 \<le> q \<and> q \<le> 1)) \<and>
    (a, b, cf) \<in> set r
      \<longrightarrow> 0 \<le> cf \<and> cf \<le> 1)
   \<and> (predict_future ridge_predict clock noise p current_data hours_ahead = Inr forecast \<and>
      (m, pts) \<in> set forecast \<and> pt \<in> set pts
      \<longrightarrow> 0 \<le> confidence pt \<and> confidence pt \<le> 1)"
proof (intro conjI impI)
  assume h: "predict_with_confidence lib c sd = Inr r \<and>
    (\<forall>(a, m) \<in> set (models c). \<forall>rows. sk_predict_proba lib m (input_frame c sd) = Inr rows
        \<longrightarrow> (\<forall>row \<in> set rows. \<forall>q \<in> set row. 0 \<le> q \<and> q \<le> 1)) \<and>
    (a, b, cf) \<in> set r"
  then have pw: "predict_with_confidence lib c sd = Inr r" and mem: "(a, b, cf) \<in> set r"
    and pr: "\<forall>(a, m) \<in> set (models c). \<forall>rows. sk_predict_proba lib m (input_frame c sd) = Inr rows
        \<longrightarrow> (\<forall>row \<in> set rows. \<forall>q \<in> set row. 0 \<le> q \<and> q \<le> 1)"
    by blast+
  from pw have "predict_with_confidence_loop lib (input_frame c sd) (models c) [] = Inr r"
    by (auto simp: predict_with_confidence_def split: if_splits option.splits)
  from predict_with_confidence_loop_unit [OF this pr] mem
  have both: "0 \<le> cf \<and> cf \<le> 1" by auto
  from both show "0 \<le> cf" by simp
  from both show "cf \<le> 1" by simp
next
  assume h: "predict_future ridge_predict clock noise p current_data hours_ahead = Inr forecast \<and>
      (m, pts) \<in> set forecast \<and> pt \<in> set pts"
  then have pf: "predict_future ridge_predict clock noise p current_data hours_ahead = Inr forecast"
    and mem: "(m, pts) \<in> set forecast" and "pt \<in> set pts"
    by simp_all
  then obtain k where k: "k < length pts" and pt: "pt = pts ! k"
    by (auto simp: in_set_conv_nth)
  have both: "0 \<le> confidence pt \<and> confidence pt \<le> 1"
  proof (cases "trend_is_trained p")
    case True
    with pf have "predict_future_loop ridge_predict clock p hours_ahead current_data [] = Inr forecast"
      by (simp add: predict_future_def)
    from forecast_trained_entries [OF this mem k] exp_conf_unit [of hours_ahead k]
    show ?thesis unfolding pt by simp
  next
    case False
    with pf have fc: "forecast = predict_simple_trends clock noise current_data hours_ahead"
      by (simp add: predict_future_def)
    from forecast_simple_entries [of m pts clock noise current_data hours_ahead k] mem k
      simple_conf_unit [of hours_ahead k]
    show ?thesis unfolding pt fc by simp
  qed
  from both show "0 \<le> confidence pt" by simp
  from both show "confidence pt \<le> 1" by simp
qed

lemma confident_prediction:
  "predict_with_confidence stub_sklearn trained_controller sample_reading =
     Inr [(''fan'', True, 1), (''pump'', True, 1), (''light'', True, 1)]"
  by (simp add: predict_with_confidence_def trained_controller_def missing_feature_def
        FEATURE_NAMES_def sample_reading_def input_frame_def stub_sklearn_def
        stub_predict_proba_def df_rows_def argmax_def)

theorem confidence_in_unit_interval_witness:
  "predict_with_confidence stub_sklearn trained_controller sample_reading =
     Inr [(''fan'', True, 1), (''pump'', True, 1), (''light'', True, 1)] \<and>
   (0 :: real) \<le> 1 \<and> (1 :: real) \<le> 1 \<and>
   (\<exists>forecast pts.
      predict_future stub_ridge_predict noon no_noise trained_predictor [(''temperature'', 25)] 1
        = Inr forecast \<and>
      (''temperature'', pts) \<in> set forecast \<and> length pts = 2 \<and>
      0 \<le> confidence (pts ! 1) \<and> confidence (pts ! 1) \<le> 1) \<and>
   (\<exists>forecast pts.
      predict_future stub_ridge_predict noon no_noise
        (trend_predictor_init :: real trend_predictor) [(''temperature'', 25)] 2 = Inr forecast \<and>
      (''temperature'', pts) \<in> set forecast \<and> length pts = 4 \<and>
      0 \<le> confidence (pts ! 3) \<and> confidence (pts ! 3) \<le> 1)"
proof -
  let ?pts = "map (trained_point noon ''temperature'') (zip [30, 60] (zip [26, 26] (confidences 1)))"
  let ?fc = "[(''temperature'', ?pts)]"
  let ?spts = "map (simple_point noon no_noise 2 ''temperature'' 25 0.5) [1, 2, 3, 4]"
  let ?sfc = "[(''temperature'', ?spts)]"
  let ?r = "[(''fan'', True, 1 :: real), (''pump'', True, 1), (''light'', True, 1)]"
  have len: "length ?pts = 2"
    by (simp add: length_confidences_one)
  have rows: "\<forall>(a, m) \<in> set (models trained_controller).
      \<forall>rows. sk_predict_proba stub_sklearn m (input_frame trained_controller sample_reading) = Inr rows
        \<longrightarrow> (\<forall>row \<in> set rows. \<forall>q \<in> set row. 0 \<le> q \<and> q \<le> 1)"
    by (auto simp: trained_controller_def stub_sklearn_def stub_predict_proba_def)
  have slen: "length ?spts = 4"
    by simp
  note U1 = confidence_in_unit_interval [of stub_sklearn trained_controller sample_reading ?r
        "''fan''" True 1 stub_ridge_predict noon no_noise trained_predictor
        "[(''temperature'', 25)]" 1 ?fc "''temperature''" ?pts "?pts ! 1"]
  note U2 = confidence_in_unit_interval [of stub_sklearn trained_controller sample_reading ?r
        "''fan''" True 1 stub_ridge_predict noon no_noise
        "trend_predictor_init :: real trend_predictor"
        "[(''temperature'', 25)]" 2 ?sfc "''temperature''" ?spts "?spts ! 3"]
  have g1: "(''fan'', True, 1 :: real) \<in> set ?r"
    by simp
  have g2: "predict_future stub_ridge_predict noon no_noise trained_predictor
              [(''temperature'', 25)] 1 = Inr ?fc \<and>
            (''temperature'', ?pts) \<in> set ?fc \<and> ?pts ! 1 \<in> set ?pts"
    using trained_forecast_one nth_mem [of 1 ?pts] len by simp
  have g3: "predict_future stub_ridge_predict noon no_noise
              (trend_predictor_init :: real trend_predictor) [(''temperature'', 25)] 2 = Inr ?sfc \<and>
            (''temperature'', ?spts) \<in> set ?sfc \<and> ?spts ! 3 \<in> set ?spts"
    using simple_forecast_two nth_mem [of 3 ?spts] slen by simp
  have a: "(0 :: real) \<le> 1 \<and> (1 :: real) \<le> 1"
    using U1 confident_prediction rows g1 by blast
  have b: "0 \<le> confidence (?pts ! 1) \<and> confidence (?pts ! 1) \<le> 1"
    using U1 g2 by blast
  have c: "0 \<le> confidence (?spts ! 3) \<and> confidence (?spts ! 3) \<le> 1"
    using U2 g3 by blast
  show ?thesis
  proof (intro conjI)
    show "predict_with_confidence stub_sklearn trained_controller sample_reading = Inr ?r"
      by (rule confident_prediction)
    show "(0 :: real) \<le> 1" "(1 :: real) \<le> 1" using a by simp_all
    show "\<exists>forecast pts.
      predict_future stub_ridge_predict noon no_noise trained_predictor [(''temperature'', 25)] 1
        = Inr forecast \<and>
      (''temperature'', pts) \<in> set forecast \<and> length pts = 2 \<and>
      0 \<le> confidence (pts ! 1) \<and> confidence (pts ! 1) \<le> 1"
      using g2 len b
      by (intro exI [of _ ?fc] exI [of _ ?pts]) blast
    show "\<exists>forecast pts.
      predict_future stub_ridge_predict noon no_noise
        (trend_predictor_init :: real trend_predictor) [(''temperature'', 25)] 2 = Inr forecast \<and>
      (''temperature'', pts) \<in> set forecast \<and> length pts = 4 \<and>
      0 \<le> confidence (pts ! 3) \<and> confidence (pts ! 3) \<le> 1"
      using g3 slen c
      by (intro exI [of _ ?sfc] exI [of _ ?spts]) blast
  qed
qed

end
